theory Spec2Isabelle
  imports Main "HOL-Library.Sublist" "HOL-Library.Multiset"
begin

section \<open>Go strings\<close>

text \<open>
  A Go \<^verbatim>\<open>string\<close> is a sequence of bytes; \<^verbatim>\<open>len\<close> counts bytes. It is modelled as
  \<^typ>\<open>string\<close> (a list of 8-bit characters). The functions of package \<^verbatim>\<open>strings\<close> that
  the crawler calls are written out on bytes. Where the library works on runes
  (\<^verbatim>\<open>TrimSpace\<close>, the class \<^verbatim>\<open>\p{Z}\<close>), a rune is recognised by its UTF-8 encoding: the
  decoder of Go accepts a code point only in its shortest encoding, and every byte of an
  encoding of a code point beyond ASCII is at least \<^verbatim>\<open>0x80\<close>.
\<close>

definition stringsContains :: "string \<Rightarrow> string \<Rightarrow> bool" where
  "stringsContains s substr = sublist substr s"

text \<open>\<^verbatim>\<open>strings.Split(s, sep)[0]\<close> for a separator of one byte.\<close>

definition splitHead :: "string \<Rightarrow> char \<Rightarrow> string" where
  "splitHead s sep = takeWhile (\<lambda>c. c \<noteq> sep) s"

definition HasPrefix :: "string \<Rightarrow> string \<Rightarrow> bool" where
  "HasPrefix s p = prefix p s"

definition HasSuffix :: "string \<Rightarrow> string \<Rightarrow> bool" where
  "HasSuffix s x = suffix x s"

definition TrimSuffix :: "string \<Rightarrow> string \<Rightarrow> string" where
  "TrimSuffix s x = (if HasSuffix s x then take (length s - length x) s else s)"

text \<open>
  The runes for which \<^verbatim>\<open>unicode.IsSpace\<close> holds, in UTF-8: tab, line feed, vertical tab,
  form feed, carriage return, space, U+0085, U+00A0, U+1680, U+2000 to U+200A, U+2028,
  U+2029, U+202F, U+205F, U+3000.
\<close>

definition whiteSpace :: "string list" where
  "whiteSpace =
    [[CHR 0x09], [CHR 0x0A], [CHR 0x0B], [CHR 0x0C], [CHR 0x0D], [CHR 0x20],
     [CHR 0xC2, CHR 0x85], [CHR 0xC2, CHR 0xA0],
     [CHR 0xE1, CHR 0x9A, CHR 0x80],
     [CHR 0xE2, CHR 0x80, CHR 0x80], [CHR 0xE2, CHR 0x80, CHR 0x81],
     [CHR 0xE2, CHR 0x80, CHR 0x82], [CHR 0xE2, CHR 0x80, CHR 0x83],
     [CHR 0xE2, CHR 0x80, CHR 0x84], [CHR 0xE2, CHR 0x80, CHR 0x85],
     [CHR 0xE2, CHR 0x80, CHR 0x86], [CHR 0xE2, CHR 0x80, CHR 0x87],
     [CHR 0xE2, CHR 0x80, CHR 0x88], [CHR 0xE2, CHR 0x80, CHR 0x89],
     [CHR 0xE2, CHR 0x80, CHR 0x8A],
     [CHR 0xE2, CHR 0x80, CHR 0xA8], [CHR 0xE2, CHR 0x80, CHR 0xA9],
     [CHR 0xE2, CHR 0x80, CHR 0xAF], [CHR 0xE2, CHR 0x81, CHR 0x9F],
     [CHR 0xE3, CHR 0x80, CHR 0x80]]"

text \<open>The runes of the Unicode category Z (separators: Zs, Zl, Zp), in UTF-8.\<close>

definition separators :: "string list" where
  "separators =
    [[CHR 0x20], [CHR 0xC2, CHR 0xA0],
     [CHR 0xE1, CHR 0x9A, CHR 0x80],
     [CHR 0xE2, CHR 0x80, CHR 0x80], [CHR 0xE2, CHR 0x80, CHR 0x81],
     [CHR 0xE2, CHR 0x80, CHR 0x82], [CHR 0xE2, CHR 0x80, CHR 0x83],
     [CHR 0xE2, CHR 0x80, CHR 0x84], [CHR 0xE2, CHR 0x80, CHR 0x85],
     [CHR 0xE2, CHR 0x80, CHR 0x86], [CHR 0xE2, CHR 0x80, CHR 0x87],
     [CHR 0xE2, CHR 0x80, CHR 0x88], [CHR 0xE2, CHR 0x80, CHR 0x89],
     [CHR 0xE2, CHR 0x80, CHR 0x8A],
     [CHR 0xE2, CHR 0x80, CHR 0xA8], [CHR 0xE2, CHR 0x80, CHR 0xA9],
     [CHR 0xE2, CHR 0x80, CHR 0xAF], [CHR 0xE2, CHR 0x81, CHR 0x9F],
     [CHR 0xE3, CHR 0x80, CHR 0x80]]"

text \<open>
  The encoding, among \<open>rs\<close>, of the rune a string starts with, or ends with. The test
  \<open>w \<noteq> []\<close> holds for every encoding; it is there for the termination of the loops below.
\<close>

definition firstRune :: "string list \<Rightarrow> string \<Rightarrow> string option" where
  "firstRune rs s = find (\<lambda>w. w \<noteq> [] \<and> prefix w s) rs"

definition lastRune :: "string list \<Rightarrow> string \<Rightarrow> string option" where
  "lastRune rs s = find (\<lambda>w. w \<noteq> [] \<and> suffix w s) rs"

lemma firstRune_Some: "firstRune rs s = Some w \<Longrightarrow> w \<noteq> [] \<and> prefix w s"
  unfolding firstRune_def by (auto dest: find_Some_iff [THEN iffD1])

lemma lastRune_Some: "lastRune rs s = Some w \<Longrightarrow> w \<noteq> [] \<and> suffix w s"
  unfolding lastRune_def by (auto dest: find_Some_iff [THEN iffD1])

function trimLeft :: "string list \<Rightarrow> string \<Rightarrow> string" where
  "trimLeft rs s =
     (case firstRune rs s of
        None \<Rightarrow> s
      | Some w \<Rightarrow> trimLeft rs (drop (length w) s))"
  by pat_completeness auto
termination
proof (relation "measure (\<lambda>(rs, s). length s)")
  fix rs :: "string list" and s w :: string
  assume "firstRune rs s = Some w"
  then have "w \<noteq> []" "prefix w s" by (auto dest: firstRune_Some)
  then have "0 < length w" "length w \<le> length s" by (auto simp: prefix_length_le)
  then have "length s - length w < length s" by arith
  then show "((rs, drop (length w) s), (rs, s)) \<in> measure (\<lambda>(rs, s). length s)" by simp
qed simp

function trimRight :: "string list \<Rightarrow> string \<Rightarrow> string" where
  "trimRight rs s =
     (case lastRune rs s of
        None \<Rightarrow> s
      | Some w \<Rightarrow> trimRight rs (take (length s - length w) s))"
  by pat_completeness auto
termination
proof (relation "measure (\<lambda>(rs, s). length s)")
  fix rs :: "string list" and s w :: string
  assume "lastRune rs s = Some w"
  then have "w \<noteq> []" "suffix w s" by (auto dest: lastRune_Some)
  then have "0 < length w" "length w \<le> length s" by (auto simp: suffix_length_le)
  then have "length s - length w < length s" by arith
  then show "((rs, take (length s - length w) s), (rs, s)) \<in> measure (\<lambda>(rs, s). length s)"
    by simp
qed simp

declare trimLeft.simps [simp del] trimRight.simps [simp del]

text \<open>\<^verbatim>\<open>strings.TrimSpace\<close>: leading, then trailing white space runes are cut off.\<close>

definition TrimSpace :: "string \<Rightarrow> string" where
  "TrimSpace s = trimRight whiteSpace (trimLeft whiteSpace s)"

section \<open>The link normalizer\<close>

definition getLink :: "string \<Rightarrow> string" where
  "getLink target =
     (let target = (if stringsContains target ''#'' then splitHead target (CHR ''#'') else target);
          target = (if stringsContains target ''?'' then splitHead target (CHR ''?'') else target);
          target = TrimSpace target
      in TrimSuffix target ''/'')"

text \<open>
  \<^verbatim>\<open>strings.ReplaceAll(s, "\n", " ")\<close>, and the replacement of every maximal run of
  separator runes (the regular expression \<^verbatim>\<open>\p{Z}+\<close>) by one space.
\<close>

definition replaceNewlines :: "string \<Rightarrow> string" where
  "replaceNewlines s = map (\<lambda>c. if c = CHR 0x0A then CHR 0x20 else c) s"

function replaceSeparators :: "string \<Rightarrow> string" where
  "replaceSeparators s =
     (case s of
        [] \<Rightarrow> []
      | c # cs \<Rightarrow>
          (case firstRune separators s of
             None \<Rightarrow> c # replaceSeparators cs
           | Some w \<Rightarrow> CHR 0x20 # replaceSeparators (trimLeft separators s)))"
  by pat_completeness auto

lemma trimLeft_shorter:
  assumes "firstRune rs s = Some w"
  shows "length (trimLeft rs s) < length s"
proof -
  have le: "length (trimLeft rs t) \<le> length t" for t
  proof (induction rs t rule: trimLeft.induct)
    case (1 rs t)
    show ?case
    proof (cases "firstRune rs t")
      case None
      then show ?thesis by (simp add: trimLeft.simps)
    next
      case (Some v)
      with 1 have "length (trimLeft rs (drop (length v) t)) \<le> length (drop (length v) t)"
        by simp
      with Some show ?thesis by (simp add: trimLeft.simps)
    qed
  qed
  from assms have "w \<noteq> []" "prefix w s" by (auto dest: firstRune_Some)
  then have "0 < length w" "length w \<le> length s" by (auto simp: prefix_length_le)
  then have "length s - length w < length s" by arith
  then have "length (drop (length w) s) < length s" by simp
  with le [of "drop (length w) s"] assms show ?thesis by (simp add: trimLeft.simps)
qed

termination replaceSeparators
proof (relation "measure length")
  fix s :: string and c cs w
  assume "s = c # cs" "firstRune separators s = Some w"
  then have "length (trimLeft separators s) < length s"
    by (simp only: trimLeft_shorter)
  then show "(trimLeft separators s, s) \<in> measure length"
    by simp
qed simp_all

declare replaceSeparators.simps [simp del]

definition cleanText :: "string \<Rightarrow> string" where
  "cleanText s =
     (let s = TrimSpace s;
          s = replaceNewlines s
      in replaceSeparators s)"

section \<open>Collaborators\<close>

text \<open>
  A parsed URL (\<^verbatim>\<open>net/url\<close>), as far as the crawler reads it: the field \<^verbatim>\<open>Path\<close>, and the
  results of the methods \<^verbatim>\<open>Hostname()\<close> and \<^verbatim>\<open>String()\<close>.
\<close>

record url =
  Path :: string
  Hostname :: string
  String :: string

text \<open>
  Modelled from the spec: the types \<^verbatim>\<open>Hypha\<close>, \<^verbatim>\<open>Site\<close>, \<^verbatim>\<open>Cluster\<close> and \<^verbatim>\<open>Config\<close> of
  package \<^verbatim>\<open>lieu/types\<close>, whose declarations are not among the sources; the fields are
  those the crawler reads and writes. \<^verbatim>\<open>Depth\<close> is a Go \<^verbatim>\<open>int\<close>. The only arithmetic on it
  is \<^verbatim>\<open>+ 1\<close>, once for each document fetched and kept in the set \<^verbatim>\<open>checked\<close>; before it
  could wrap, the sets would hold more entries than the machine has bytes of memory. It
  is modelled as an unbounded integer.
\<close>

record Hypha =
  Url :: string
  Depth :: int

record Site =
  Url :: string
  Depth :: int

record Cluster =
  Location :: string
  Hyphae :: "string list"
  Spores :: "string list"
  Depth :: int

record Config =
  General_URL :: string
  General_Proxy :: string
  Crawler_BannedDomains :: string
  Crawler_BannedSuffixes :: string
  Crawler_BoringWords :: string
  Crawler_BoringDomains :: string
  Crawler_PreviewQueries :: string
  Crawler_Webring :: string
  Data_Heuristics :: string

text \<open>
  A response of \<^verbatim>\<open>net/http\<close>: its status code, and what \<^verbatim>\<open>ioutil.ReadAll\<close> returns on its
  body (\<open>None\<close> when it returns an error).
\<close>

record Response =
  StatusCode :: int
  Body :: "string option"

text \<open>
  The functions of the Go library, of colly, of golang-set and of package \<^verbatim>\<open>lieu/util\<close>
  that the crawler calls and that are not among the sources. They are parameters of the
  model:
  \<^item> \<open>urlParse\<close>: \<^verbatim>\<open>url.Parse\<close>, \<open>None\<close> when it returns an error;
  \<^item> \<open>ToLower\<close>: \<^verbatim>\<open>strings.ToLower\<close>;
  \<^item> \<open>utilContains\<close>, \<open>utilReadList\<close>: \<^verbatim>\<open>util.Contains\<close>, \<^verbatim>\<open>util.ReadList\<close>;
  \<^item> \<open>AbsoluteURL\<close>: \<^verbatim>\<open>Request.AbsoluteURL\<close> of colly, for the URL of the request;
  \<^item> \<open>httpGet\<close>: \<^verbatim>\<open>Client.Get\<close>, \<open>None\<close> when it returns an error;
  \<^item> \<open>jsonUnmarshal\<close>: \<^verbatim>\<open>json.Unmarshal\<close> into a fresh \<^verbatim>\<open>Cluster\<close>: the cluster after the
    call, and whether the call returned an error;
  \<^item> \<open>setPop\<close>: \<^verbatim>\<open>Pop\<close> of a set, which takes an arbitrary element.
\<close>

record env =
  urlParse :: "string \<Rightarrow> url option"
  ToLower :: "string \<Rightarrow> string"
  utilContains :: "string list \<Rightarrow> string \<Rightarrow> bool"
  utilReadList :: "string \<Rightarrow> string \<Rightarrow> string list"
  AbsoluteURL :: "url \<Rightarrow> string \<Rightarrow> string"
  httpGet :: "string \<Rightarrow> Response option"
  jsonUnmarshal :: "string \<Rightarrow> Cluster \<times> bool"
  setPop :: "Hypha list \<Rightarrow> Hypha"

section \<open>Policy lists and the site registry\<close>

definition getBannedDomains :: "env \<Rightarrow> string \<Rightarrow> string list" where
  "getBannedDomains env path = utilReadList env path [CHR 0x0A]"

definition getBannedSuffixes :: "env \<Rightarrow> string \<Rightarrow> string list" where
  "getBannedSuffixes env path = utilReadList env path [CHR 0x0A]"

definition getBoringWords :: "env \<Rightarrow> string \<Rightarrow> string list" where
  "getBoringWords env path = utilReadList env path [CHR 0x0A]"

definition getBoringDomains :: "env \<Rightarrow> string \<Rightarrow> string list" where
  "getBoringDomains env path = utilReadList env path [CHR 0x0A]"

definition getAboutHeuristics :: "env \<Rightarrow> string \<Rightarrow> string list" where
  "getAboutHeuristics env path = utilReadList env path [CHR 0x0A]"

definition getPreviewQueries :: "env \<Rightarrow> string \<Rightarrow> string list" where
  "getPreviewQueries env path =
     (let previewQueries = utilReadList env path [CHR 0x0A]
      in if length previewQueries > 0 then previewQueries
         else [''main p'', ''article p'', ''section p'', ''p''])"

fun find' :: "string list \<Rightarrow> string \<Rightarrow> bool" where
  "find' [] query = False"
| "find' (item # list) query = (if item = query then True else find' list query)"

fun findSuffix :: "env \<Rightarrow> string list \<Rightarrow> string \<Rightarrow> bool" where
  "findSuffix env [] query = False"
| "findSuffix env (sfx # sfxs) query =
     (if HasSuffix (ToLower env query) sfx then True else findSuffix env sfxs query)"

text \<open>
  \<^verbatim>\<open>getDomains\<close>: the loop over the seed links, with the two slices it appends to. The
  test on the path is the one of the source, with its \<^verbatim>\<open>||\<close>.
\<close>

fun getDomainsLoop ::
  "env \<Rightarrow> string list \<Rightarrow> string list \<times> string list \<Rightarrow> string list \<times> string list" where
  "getDomainsLoop env [] (domains, pathsites) = (domains, pathsites)"
| "getDomainsLoop env (l # links) (domains, pathsites) =
     (case urlParse env l of
        None \<Rightarrow> getDomainsLoop env links (domains, pathsites)
      | Some u \<Rightarrow>
          getDomainsLoop env links
            (domains @ [Hostname u],
             if length (Path u) > 0 \<and> (Path u \<noteq> ''/'' \<or> Path u \<noteq> ''index.html'')
             then pathsites @ [l] else pathsites))"

definition getDomains :: "env \<Rightarrow> string list \<Rightarrow> string list \<times> string list" where
  "getDomains env links = getDomainsLoop env links ([], [])"

section \<open>The main crawl\<close>

text \<open>
  What a handler of colly sees. An element (\<^verbatim>\<open>colly.HTMLElement\<close>) gives its attributes, its
  text, the texts of the elements \<^verbatim>\<open>e.DOM.Find\<close> selects below it (in document order)
  and \<^verbatim>\<open>e.ChildTexts\<close>. A page is the URL of the request, the status code of the
  response, and for every selector the elements of the document it matches.
\<close>

record HTMLElement =
  Attr :: "string \<Rightarrow> string"
  Text :: string
  Find :: "string \<Rightarrow> string list"
  ChildTexts :: "string \<Rightarrow> string list"

record Page =
  Request_URL :: url
  Response_StatusCode :: int
  Select :: "string \<Rightarrow> HTMLElement list"

text \<open>A line printed by \<^verbatim>\<open>fmt.Println\<close>: a tag, a text, the URL of the page and a depth.\<close>

record line =
  tag :: string
  payload :: string
  page :: string
  depth :: int

text \<open>Reading a Go map gives the zero value for a key that is not in it.\<close>

definition lookupDepth :: "(string \<rightharpoonup> int) \<Rightarrow> string \<Rightarrow> int" where
  "lookupDepth linkDepths k = (case linkDepths k of None \<Rightarrow> 0 | Some d \<Rightarrow> d)"

text \<open>
  \<^verbatim>\<open>fmt.Println(tag, text, e.Request.URL, linkDepths[e.Request.URL.String()])\<close>, the form of
  every line the handlers print.
\<close>

definition Println :: "string \<Rightarrow> string \<Rightarrow> Page \<Rightarrow> (string \<rightharpoonup> int) \<Rightarrow> line" where
  "Println t x pg linkDepths =
     \<lparr>tag = t, payload = x, page = String (Request_URL pg),
      depth = lookupDepth linkDepths (String (Request_URL pg))\<rparr>"

text \<open>
  The values \<^verbatim>\<open>Crawl\<close> computes before it registers its handlers, under the names of its
  local variables. The seed links are those \<^verbatim>\<open>getWebringLinks\<close> returns.
\<close>

record policy =
  SUFFIXES :: "string list"
  domains :: "string list"
  pathsites :: "string list"
  initialDomain :: string
  boringDomains :: "string list"
  boringWords :: "string list"
  previewQueries :: "string list"
  heuristics :: "string list"

definition crawlPolicy :: "env \<Rightarrow> Config \<Rightarrow> string list \<Rightarrow> policy" where
  "crawlPolicy env config links =
     \<lparr>SUFFIXES = getBannedSuffixes env (Crawler_BannedSuffixes config),
      domains = fst (getDomains env links),
      pathsites = snd (getDomains env links),
      initialDomain = General_URL config,
      boringDomains = getBoringDomains env (Crawler_BoringDomains config),
      boringWords = getBoringWords env (Crawler_BoringWords config),
      previewQueries = getPreviewQueries env (Crawler_PreviewQueries config),
      heuristics = getAboutHeuristics env (Data_Heuristics config)\<rparr>"

text \<open>
  The loop that looks for the pathsite of a domain: the first pathsite that contains the
  domain, or the empty string.
\<close>

fun findPathsite :: "string list \<Rightarrow> string \<Rightarrow> string" where
  "findPathsite [] outgoingDomain = []"
| "findPathsite (s # rest) outgoingDomain =
     (if stringsContains s outgoingDomain then s else findPathsite rest outgoingDomain)"

text \<open>
  The handler of \<^verbatim>\<open>a[href]\<close>, for one element: the lines it prints and the links it gives
  to \<^verbatim>\<open>q.AddURL\<close>.
\<close>

definition onAnchor ::
  "env \<Rightarrow> policy \<Rightarrow> (string \<rightharpoonup> int) \<Rightarrow> Page \<Rightarrow> HTMLElement \<Rightarrow> line list \<times> string list" where
  "onAnchor env pol linkDepths pg e =
     (if Response_StatusCode pg \<ge> 400 \<or> Response_StatusCode pg \<le> 100 then ([], [])
      else
        let link = getLink (Attr e ''href'') in
        if findSuffix env (SUFFIXES pol) link then ([], [])
        else
          let link = AbsoluteURL env (Request_URL pg) link in
          case urlParse env link of
            None \<Rightarrow> ([], [])
          | Some u \<Rightarrow>
              let outgoingDomain = Hostname u;
                  currentDomain = Hostname (Request_URL pg);
                  printed =
                    (if \<not> utilContains env (boringWords pol) link
                        \<and> \<not> utilContains env (boringDomains pol) link
                     then
                       if \<not> find' (domains pol) outgoingDomain
                       then [Println ''non-webring-link'' link pg linkDepths]
                       else if outgoingDomain \<noteq> currentDomain
                               \<and> outgoingDomain \<noteq> initialDomain pol
                               \<and> currentDomain \<noteq> initialDomain pol
                       then [Println ''webring-link'' link pg linkDepths]
                       else []
                     else []);
                  pathsite = findPathsite (pathsites pol) outgoingDomain
              in if pathsite \<noteq> []
                 then (if HasPrefix link pathsite then (printed, [link]) else (printed, []))
                 else (printed, [link]))"

text \<open>The handlers of \<^verbatim>\<open>handleIndexing\<close>, each for one element: the lines it prints.\<close>

definition onKeywords :: "(string \<rightharpoonup> int) \<Rightarrow> Page \<Rightarrow> HTMLElement \<Rightarrow> line list" where
  "onKeywords linkDepths pg e =
     [Println ''keywords'' (cleanText (Attr e ''content'')) pg linkDepths]"

definition onDescription :: "(string \<rightharpoonup> int) \<Rightarrow> Page \<Rightarrow> HTMLElement \<Rightarrow> line list" where
  "onDescription linkDepths pg e =
     (let desc = cleanText (Attr e ''content'')
      in if length desc > 0 \<and> length desc < 1500
         then [Println ''desc'' desc pg linkDepths] else [])"

definition onOgDescription :: "(string \<rightharpoonup> int) \<Rightarrow> Page \<Rightarrow> HTMLElement \<Rightarrow> line list" where
  "onOgDescription linkDepths pg e =
     (let ogDesc = cleanText (Attr e ''content'')
      in if length ogDesc > 0 \<and> length ogDesc < 1500
         then [Println ''og-desc'' ogDesc pg linkDepths] else [])"

definition onLang :: "(string \<rightharpoonup> int) \<Rightarrow> Page \<Rightarrow> HTMLElement \<Rightarrow> line list" where
  "onLang linkDepths pg e =
     (let lang = cleanText (Attr e ''lang'')
      in if length lang > 0 \<and> length lang < 100
         then [Println ''lang'' lang pg linkDepths] else [])"

definition onTitle :: "(string \<rightharpoonup> int) \<Rightarrow> Page \<Rightarrow> HTMLElement \<Rightarrow> line list" where
  "onTitle linkDepths pg e = [Println ''title'' (cleanText (Text e)) pg linkDepths]"

text \<open>
  \<^verbatim>\<open>QueryLoop\<close>: for each query, the first of its first four elements whose cleaned text
  has more than 20 and fewer than 1500 bytes and is not an about-page heuristic; the loop
  stops at the first query that has one.
\<close>

fun QueryLoop :: "env \<Rightarrow> string list \<Rightarrow> HTMLElement \<Rightarrow> string list \<Rightarrow> string option" where
  "QueryLoop env heur e [] = None"
| "QueryLoop env heur e (q # qs) =
     (case find (\<lambda>paragraph. length paragraph < 1500 \<and> length paragraph > 20
                   \<and> \<not> utilContains env heur (ToLower env paragraph))
             (map cleanText (take 4 (Find e q))) of
        Some paragraph \<Rightarrow> Some paragraph
      | None \<Rightarrow> QueryLoop env heur e qs)"

definition collectHeadingText ::
  "string \<Rightarrow> HTMLElement \<Rightarrow> (string \<rightharpoonup> int) \<Rightarrow> Page \<Rightarrow> line list" where
  "collectHeadingText heading e linkDepths pg =
     concat (map (\<lambda>headingText.
        if length headingText < 500
        then [Println heading (cleanText headingText) pg linkDepths] else [])
       (ChildTexts e heading))"

definition onBody ::
  "env \<Rightarrow> string list \<Rightarrow> string list \<Rightarrow> (string \<rightharpoonup> int) \<Rightarrow> Page \<Rightarrow> HTMLElement \<Rightarrow> line list" where
  "onBody env queries heur linkDepths pg e =
     (case QueryLoop env heur e queries of
        None \<Rightarrow> []
      | Some paragraph \<Rightarrow> [Println ''para'' paragraph pg linkDepths])
     @ (let paragraph = cleanText (case Find e ''p'' of [] \<Rightarrow> [] | t # ts \<Rightarrow> t)
        in if length paragraph < 1500 \<and> length paragraph > 0
           then [Println ''para-just-p'' paragraph pg linkDepths] else [])
     @ collectHeadingText ''h1'' e linkDepths pg
     @ collectHeadingText ''h2'' e linkDepths pg
     @ collectHeadingText ''h3'' e linkDepths pg"

text \<open>
  The selectors the handlers are registered for. A selector with a double quote is
  written with the byte \<^verbatim>\<open>0x22\<close>.
\<close>

definition metaSelector :: "string \<Rightarrow> string \<Rightarrow> string" where
  "metaSelector attr val = ''meta['' @ attr @ ''='' @ [CHR 0x22] @ val @ [CHR 0x22] @ '']''"

text \<open>
  \<^verbatim>\<open>c.OnHTML(selector, f)\<close>: the results of the handler \<open>f\<close> on a page. The collector of
  \<^verbatim>\<open>Crawl\<close> leaves \<^verbatim>\<open>ParseHTTPErrorResponse\<close> unset: colly then takes a response with a
  status of 203 or more for an error (it calls the handler of \<^verbatim>\<open>OnError\<close>) and calls no
  handler of \<^verbatim>\<open>OnHTML\<close> for it. For any other response it calls \<open>f\<close> for every element the
  selector matches, in the order of the document.
\<close>

definition OnHTML :: "Page \<Rightarrow> string \<Rightarrow> (HTMLElement \<Rightarrow> 'a) \<Rightarrow> 'a list" where
  "OnHTML pg selector f =
     (if Response_StatusCode pg \<ge> 203 then [] else map f (Select pg selector))"

definition handleIndexing ::
  "env \<Rightarrow> string list \<Rightarrow> string list \<Rightarrow> (string \<rightharpoonup> int) \<Rightarrow> Page \<Rightarrow> line list" where
  "handleIndexing env queries heur linkDepths pg =
     concat (OnHTML pg (metaSelector ''name'' ''keywords'') (onKeywords linkDepths pg))
     @ concat (OnHTML pg (metaSelector ''name'' ''description'') (onDescription linkDepths pg))
     @ concat (OnHTML pg (metaSelector ''property'' ''og:description'')
         (onOgDescription linkDepths pg))
     @ concat (OnHTML pg ''html[lang]'' (onLang linkDepths pg))
     @ concat (OnHTML pg ''title'' (onTitle linkDepths pg))
     @ concat (OnHTML pg ''body'' (onBody env queries heur linkDepths pg))"

text \<open>
  The state of the crawl: the URLs given to \<^verbatim>\<open>q.AddURL\<close>, the map \<^verbatim>\<open>linkDepths\<close>, and the
  lines printed so far.
\<close>

record crawl_state =
  queue :: "string list"
  linkDepths :: "string \<rightharpoonup> int"
  printed :: "line list"

text \<open>
  The loop \<^verbatim>\<open>for i, link := range links\<close> that fills the queue and the map. Reading
  \<^verbatim>\<open>depths[i]\<close> beyond the end of \<^verbatim>\<open>depths\<close> panics: the result is \<open>None\<close>.
\<close>

fun seedLoop :: "string list \<Rightarrow> int list \<Rightarrow> crawl_state \<Rightarrow> crawl_state option" where
  "seedLoop [] ds st = Some st"
| "seedLoop (link # links) [] st = None"
| "seedLoop (link # links) (d # ds) st =
     seedLoop links ds
       (st\<lparr>queue := queue st @ [link], linkDepths := (linkDepths st)(link \<mapsto> d)\<rparr>)"

definition crawlStart :: "string list \<Rightarrow> int list \<Rightarrow> crawl_state option" where
  "crawlStart links depths =
     seedLoop links depths \<lparr>queue = [], linkDepths = Map.empty, printed = []\<rparr>"

text \<open>
  One fetched page: colly calls the handlers in the order of their registration
  (\<^verbatim>\<open>a[href]\<close> first, then those of \<^verbatim>\<open>handleIndexing\<close>), each for every element its
  selector matches, and none when the status is 203 or more. The handlers read the map
  of the state.
\<close>

definition visitPage :: "env \<Rightarrow> policy \<Rightarrow> Page \<Rightarrow> crawl_state \<Rightarrow> crawl_state" where
  "visitPage env pol pg st =
     (let rs = OnHTML pg ''a[href]'' (onAnchor env pol (linkDepths st) pg)
      in st\<lparr>queue := queue st @ concat (map snd rs),
            printed := printed st @ concat (map fst rs)
              @ handleIndexing env (previewQueries pol) (heuristics pol) (linkDepths st) pg\<rparr>)"

text \<open>
  \<^verbatim>\<open>q.Run(c)\<close>: which pages are fetched, and in which order, is decided by colly (its
  queue, its filters on domains and depth, its workers). The states of the crawl are
  those reached from the start by visiting any pages. (\<^verbatim>\<open>Crawl\<close> first calls
  \<^verbatim>\<open>SetupDefaultProxy\<close> and stops at \<^verbatim>\<open>log.Fatal\<close> on its error: these are the states of
  a run that got past it. The line the handler of \<^verbatim>\<open>OnError\<close> prints for a failed request
  has no depth and is left out.)
\<close>

inductive crawlReach :: "env \<Rightarrow> policy \<Rightarrow> crawl_state \<Rightarrow> crawl_state \<Rightarrow> bool"
  for env :: env and pol :: policy and s0 :: crawl_state where
  start: "crawlReach env pol s0 s0"
| visit: "crawlReach env pol s0 s \<Longrightarrow> crawlReach env pol s0 (visitPage env pol pg s)"

section \<open>The discovery protocol\<close>

text \<open>Every error after which \<^verbatim>\<open>Precrawl\<close> calls \<^verbatim>\<open>log.Fatal\<close>.\<close>

datatype fatal = ProxyError | GetError | ReadAllError | StatusNot200

text \<open>
  A set of golang-set is modelled as a list without duplicates, in the order of insertion.
  The order in which Go iterates over a set is arbitrary: \<open>setPop\<close> is a parameter, and
  the lines printed from a set are known up to their order.
\<close>

definition setAdd :: "'a \<Rightarrow> 'a list \<Rightarrow> 'a list" where
  "setAdd x xs = (if x \<in> set xs then xs else xs @ [x])"

definition setDifference :: "'a list \<Rightarrow> 'a list \<Rightarrow> 'a list" where
  "setDifference xs ys = filter (\<lambda>x. x \<notin> set ys) xs"

definition setCardinality :: "'a list \<Rightarrow> nat" where
  "setCardinality xs = length xs"

definition SetupDefaultProxy :: "env \<Rightarrow> Config \<Rightarrow> fatal option" where
  "SetupDefaultProxy env config =
     (if General_Proxy config = [] then None
      else case urlParse env (General_Proxy config) of
             None \<Rightarrow> Some ProxyError
           | Some proxyURL \<Rightarrow> None)"

record precrawl_state =
  res :: Response
  depthCounter :: int
  checked :: "Hypha list"
  allHyphae :: "Hypha list"
  allSites :: "Site list"

text \<open>
  One iteration of the loop \<^verbatim>\<open>for !precrawled\<close>: a fatal error, the end of the loop, or
  the state for the next iteration. The error \<^verbatim>\<open>json.Unmarshal\<close> returns is dropped, as
  in the source.
\<close>

datatype step = Fatal fatal | Done precrawl_state | Again precrawl_state

definition precrawlIter :: "env \<Rightarrow> precrawl_state \<Rightarrow> step" where
  "precrawlIter env st =
     (case Body (res st) of
        None \<Rightarrow> Fatal ReadAllError
      | Some body \<Rightarrow>
          let cluster = (fst (jsonUnmarshal env body))\<lparr>Cluster.Depth := depthCounter st\<rparr>;
              checked' =
                setAdd \<lparr>Hypha.Url = Location cluster, Hypha.Depth = Cluster.Depth cluster\<rparr>
                  (checked st);
              allHyphae' =
                fold (\<lambda>v. setAdd \<lparr>Hypha.Url = v, Hypha.Depth = Cluster.Depth cluster + 1\<rparr>)
                  (Hyphae cluster) (allHyphae st);
              allSites' =
                fold (\<lambda>v. setAdd \<lparr>Site.Url = v, Site.Depth = Cluster.Depth cluster\<rparr>)
                  (Spores cluster) (allSites st);
              st' = st\<lparr>checked := checked', allHyphae := allHyphae', allSites := allSites'\<rparr>;
              diff = setDifference allHyphae' checked'
          in if setCardinality diff = 0 then Done st'
             else
               let d = setPop env diff in
               case httpGet env (Hypha.Url d) of
                 None \<Rightarrow> Fatal GetError
               | Some r \<Rightarrow> Again (st'\<lparr>depthCounter := Hypha.Depth d, res := r\<rparr>))"

text \<open>The loop may run forever: \<open>None\<close> is a run that never leaves it.\<close>

partial_function (option) precrawlLoop :: "env \<Rightarrow> precrawl_state \<Rightarrow> (fatal + precrawl_state) option" where
  "precrawlLoop env st =
     (case precrawlIter env st of
        Fatal e \<Rightarrow> Some (Inl e)
      | Done st' \<Rightarrow> Some (Inr st')
      | Again st' \<Rightarrow> precrawlLoop env st')"

declare precrawlLoop.simps [code]

text \<open>The loop over \<^verbatim>\<open>allSites.ToSlice()\<close>: the pairs it prints.\<close>

fun printSites :: "env \<Rightarrow> string list \<Rightarrow> Site list \<Rightarrow> (string \<times> int) list" where
  "printSites env BANNED [] = []"
| "printSites env BANNED (h # items) =
     (let link = getLink (Site.Url h) in
      case urlParse env link of
        None \<Rightarrow> printSites env BANNED items
      | Some u \<Rightarrow>
          if find' BANNED (Hostname u) then printSites env BANNED items
          else (link, Site.Depth h) # printSites env BANNED items)"

definition precrawlStart :: "Response \<Rightarrow> precrawl_state" where
  "precrawlStart r = \<lparr>res = r, depthCounter = 0, checked = [], allHyphae = [], allSites = []\<rparr>"

text \<open>
  \<^verbatim>\<open>Precrawl\<close>: \<open>None\<close> when it runs forever, \<open>Some (Inl e)\<close> when it stops at
  \<^verbatim>\<open>log.Fatal\<close> and prints no pair, \<open>Some (Inr ps)\<close> when it returns after printing the
  pairs \<open>ps\<close>.
\<close>

definition Precrawl :: "env \<Rightarrow> Config \<Rightarrow> (fatal + (string \<times> int) list) option" where
  "Precrawl env config =
     (case SetupDefaultProxy env config of
        Some e \<Rightarrow> Some (Inl e)
      | None \<Rightarrow>
          (case httpGet env (General_URL config) of
             None \<Rightarrow> Some (Inl GetError)
           | Some r \<Rightarrow>
               (case precrawlLoop env (precrawlStart r) of
                  None \<Rightarrow> None
                | Some (Inl e) \<Rightarrow> Some (Inl e)
                | Some (Inr st) \<Rightarrow>
                    if StatusCode (res st) \<noteq> 200 then Some (Inl StatusNot200)
                    else Some (Inr (printSites env
                           (getBannedDomains env (Crawler_BannedDomains config)) (allSites st))))))"

section \<open>Definitions for the statements and their instances\<close>

text \<open>A string ends with a white space rune.\<close>

definition hasSpaceSuffix :: "string \<Rightarrow> bool" where
  "hasSpaceSuffix s = (lastRune whiteSpace s \<noteq> None)"


text \<open>
  An environment for the instances: \<^verbatim>\<open>url.Parse\<close>, \<^verbatim>\<open>Client.Get\<close> and \<^verbatim>\<open>json.Unmarshal\<close>
  are given by tables (an error outside the table). The strings of the instances have no
  upper-case letter and the links are absolute, so \<^verbatim>\<open>strings.ToLower\<close> and
  \<^verbatim>\<open>AbsoluteURL\<close> return them unchanged. There are no list files (\<^verbatim>\<open>util.ReadList\<close>
  returns the empty list); \<^verbatim>\<open>util.Contains\<close> is the exact match the spec describes.
  \<^verbatim>\<open>Pop\<close> takes the first element.
\<close>

definition exampleEnv ::
  "(string \<times> url) list \<Rightarrow> (string \<times> Response) list \<Rightarrow> (string \<times> Cluster \<times> bool) list \<Rightarrow> env" where
  "exampleEnv urls web docs =
     \<lparr>urlParse = map_of urls,
      ToLower = (\<lambda>s. s),
      utilContains = (\<lambda>arr query. find' arr query),
      utilReadList = (\<lambda>path sep. []),
      AbsoluteURL = (\<lambda>base link. link),
      httpGet = map_of web,
      jsonUnmarshal = (\<lambda>body. case map_of docs body of
                                 None \<Rightarrow> (\<lparr>Location = [], Hyphae = [], Spores = [], Depth = 0\<rparr>, True)
                               | Some r \<Rightarrow> r),
      setPop = hd\<rparr>"

definition anchor :: "string \<Rightarrow> HTMLElement" where
  "anchor href =
     \<lparr>Attr = (\<lambda>a. if a = ''href'' then href else []), Text = [],
      Find = (\<lambda>q. []), ChildTexts = (\<lambda>q. [])\<rparr>"

definition sharedUrls :: "(string \<times> url) list" where
  "sharedUrls =
     [(''https://shared.example/~alice'',
         \<lparr>Path = ''/~alice'', Hostname = ''shared.example'', String = ''https://shared.example/~alice''\<rparr>),
      (''https://shared.example/~bob'',
         \<lparr>Path = ''/~bob'', Hostname = ''shared.example'', String = ''https://shared.example/~bob''\<rparr>),
      (''https://shared.example/~alice/page2'',
         \<lparr>Path = ''/~alice/page2'', Hostname = ''shared.example'',
          String = ''https://shared.example/~alice/page2''\<rparr>),
      (''https://shared.example/~bob/page'',
         \<lparr>Path = ''/~bob/page'', Hostname = ''shared.example'',
          String = ''https://shared.example/~bob/page''\<rparr>)]"

definition sharedEnv :: env where
  "sharedEnv = exampleEnv sharedUrls [] []"

definition exampleConfig :: Config where
  "exampleConfig =
     \<lparr>General_URL = ''https://webring.example'', General_Proxy = [],
      Crawler_BannedDomains = ''banned.txt'', Crawler_BannedSuffixes = ''suffixes.txt'',
      Crawler_BoringWords = ''words.txt'', Crawler_BoringDomains = ''domains.txt'',
      Crawler_PreviewQueries = ''queries.txt'', Crawler_Webring = ''webring.txt'',
      Data_Heuristics = ''heuristics.txt''\<rparr>"

definition alicePage :: Page where
  "alicePage =
     \<lparr>Request_URL = \<lparr>Path = ''/~alice'', Hostname = ''shared.example'',
                      String = ''https://shared.example/~alice''\<rparr>,
      Response_StatusCode = 200,
      Select = (\<lambda>sel. [])\<rparr>"

definition alicePolicy :: policy where
  "alicePolicy = crawlPolicy sharedEnv exampleConfig [''https://shared.example/~alice'']"

definition aliceBobPolicy :: policy where
  "aliceBobPolicy =
     crawlPolicy sharedEnv exampleConfig
       [''https://shared.example/~alice'', ''https://shared.example/~bob'']"


definition rootEnv :: env where
  "rootEnv =
     exampleEnv
       [(''https://example.com/'',
           \<lparr>Path = ''/'', Hostname = ''example.com'', String = ''https://example.com/''\<rparr>)]
       [] []"

definition ringUrls :: "(string \<times> url) list" where
  "ringUrls =
     [(''https://alice.example'',
         \<lparr>Path = [], Hostname = ''alice.example'', String = ''https://alice.example''\<rparr>),
      (''https://bob.example'',
         \<lparr>Path = [], Hostname = ''bob.example'', String = ''https://bob.example''\<rparr>),
      (''https://bob.example/post'',
         \<lparr>Path = ''/post'', Hostname = ''bob.example'', String = ''https://bob.example/post''\<rparr>),
      (''https://alice.example/about'',
         \<lparr>Path = ''/about'', Hostname = ''alice.example'',
          String = ''https://alice.example/about''\<rparr>)]"

definition ringEnv :: env where
  "ringEnv = exampleEnv ringUrls [] []"

definition ringLinks :: "string list" where
  "ringLinks = [''https://alice.example'', ''https://bob.example'']"

definition ringDepths :: "int list" where
  "ringDepths = [1, 2]"

definition ringPolicy :: policy where
  "ringPolicy = crawlPolicy ringEnv exampleConfig ringLinks"

definition titleElement :: "string \<Rightarrow> HTMLElement" where
  "titleElement t = \<lparr>Attr = (\<lambda>a. []), Text = t, Find = (\<lambda>q. []), ChildTexts = (\<lambda>q. [])\<rparr>"

definition aboutPage :: "int \<Rightarrow> Page" where
  "aboutPage status =
     \<lparr>Request_URL = \<lparr>Path = ''/about'', Hostname = ''alice.example'',
                      String = ''https://alice.example/about''\<rparr>,
      Response_StatusCode = status,
      Select = (\<lambda>sel. if sel = ''a[href]''
                       then [anchor ''https://bob.example/post'', anchor ''https://alice.example'']
                       else if sel = ''title'' then [titleElement ''  About   Alice ''] else [])\<rparr>"

definition ringStart :: crawl_state where
  "ringStart =
     \<lparr>queue = ringLinks,
      linkDepths = [''https://alice.example'' \<mapsto> 1, ''https://bob.example'' \<mapsto> 2],
      printed = []\<rparr>"

text \<open>
  A ring whose root site, \<^verbatim>\<open>https://webring.example\<close> (the \<^verbatim>\<open>General.URL\<close> of the
  configuration), is a seed beside two members.
\<close>

definition rootRingEnv :: env where
  "rootRingEnv =
     exampleEnv
       (ringUrls @
        [(''https://webring.example'',
            \<lparr>Path = [], Hostname = ''webring.example'', String = ''https://webring.example''\<rparr>),
         (''https://webring.example/members'',
            \<lparr>Path = ''/members'', Hostname = ''webring.example'',
             String = ''https://webring.example/members''\<rparr>)])
       [] []"

definition rootRingPolicy :: policy where
  "rootRingPolicy =
     crawlPolicy rootRingEnv exampleConfig
       [''https://webring.example'', ''https://alice.example'', ''https://bob.example'']"

definition membersPage :: Page where
  "membersPage =
     \<lparr>Request_URL = \<lparr>Path = ''/members'', Hostname = ''webring.example'',
                      String = ''https://webring.example/members''\<rparr>,
      Response_StatusCode = 200,
      Select = (\<lambda>sel. if sel = ''a[href]'' then [anchor ''https://alice.example/about''] else [])\<rparr>"

text \<open>
  For the discovery protocol: the cluster decoded from a response; the hyphae and the sites
  a cluster adds at a depth; the states at the head of the loop; the hypha the next
  iteration marks as checked; whether a site passes the tests of the printing loop and
  the pair printed for it; the sites discovered from a set of checked hyphae (each spore of the document of a checked
  hypha, at the depth of that hypha).
\<close>

definition clusterOf :: "env \<Rightarrow> Response \<Rightarrow> Cluster option" where
  "clusterOf env r = map_option (\<lambda>body. fst (jsonUnmarshal env body)) (Body r)"



inductive precrawlReach :: "env \<Rightarrow> precrawl_state \<Rightarrow> precrawl_state \<Rightarrow> bool"
  for env :: env and s0 :: precrawl_state where
  first: "precrawlReach env s0 s0"
| again: "precrawlReach env s0 s \<Longrightarrow> precrawlIter env s = Again s' \<Longrightarrow> precrawlReach env s0 s'"






text \<open>Instances for the discovery protocol.\<close>

definition seedConfig :: "string \<Rightarrow> Config" where
  "seedConfig u = exampleConfig\<lparr>General_URL := u\<rparr>"





definition twoDocs :: env where
  "twoDocs =
     exampleEnv
       [(''https://b'', \<lparr>Path = [], Hostname = ''b'', String = ''https://b''\<rparr>),
        (''https://c'', \<lparr>Path = [], Hostname = ''c'', String = ''https://c''\<rparr>)]
       [(''https://a'', \<lparr>StatusCode = 200, Body = Some ''doc a''\<rparr>),
        (''https://a/2'', \<lparr>StatusCode = 200, Body = Some ''doc a/2''\<rparr>)]
       [(''doc a'', \<lparr>Location = ''https://a'', Hyphae = [''https://a/2''], Spores = [''https://b''],
                     Depth = 0\<rparr>, False),
        (''doc a/2'', \<lparr>Location = ''https://a/2'', Hyphae = [], Spores = [''https://c''],
                       Depth = 0\<rparr>, False)]"

definition quoted :: "string \<Rightarrow> string" where
  "quoted s = CHR 0x22 # s @ [CHR 0x22]"

definition typeErrorDoc :: string where
  "typeErrorDoc =
     ''{'' @ quoted ''location'' @ '':'' @ quoted ''https://a'' @ '','' @ quoted ''hyphae''
     @ '':7,'' @ quoted ''spores'' @ '':['' @ quoted ''https://b'' @ '']}''"

definition typeErrorEnv :: env where
  "typeErrorEnv =
     exampleEnv
       [(''https://b'', \<lparr>Path = [], Hostname = ''b'', String = ''https://b''\<rparr>)]
       [(''https://a'', \<lparr>StatusCode = 200, Body = Some typeErrorDoc\<rparr>)]
       [(typeErrorDoc, \<lparr>Location = ''https://a'', Hyphae = [], Spores = [''https://b''],
                         Depth = 0\<rparr>, True)]"




section \<open>Lemmas on strings and on the link normalizer\<close>

lemma contains_char: "stringsContains s [c] \<longleftrightarrow> c \<in> set s"
  unfolding stringsContains_def by (induction s) (auto simp: sublist_Cons_right)

lemma splitHead_no: "c \<notin> set (splitHead s c)"
  unfolding splitHead_def by (induction s) auto

lemma splitHead_set: "set (splitHead s c) \<subseteq> set s"
  unfolding splitHead_def by (auto dest: set_takeWhileD)

lemma trimLeft_firstRune: "firstRune rs (trimLeft rs s) = None"
  by (induction rs s rule: trimLeft.induct) (simp add: trimLeft.simps split: option.splits)

lemma trimLeft_id: "firstRune rs s = None \<Longrightarrow> trimLeft rs s = s"
  by (simp add: trimLeft.simps)

lemma trimRight_id: "lastRune rs s = None \<Longrightarrow> trimRight rs s = s"
  by (simp add: trimRight.simps)

lemma trimLeft_suffix: "suffix (trimLeft rs s) s"
proof (induction rs s rule: trimLeft.induct)
  case (1 rs s)
  show ?case
  proof (cases "firstRune rs s")
    case None
    then show ?thesis by (simp add: trimLeft.simps)
  next
    case (Some w)
    with 1 have "suffix (trimLeft rs (drop (length w) s)) (drop (length w) s)" by simp
    then have "suffix (trimLeft rs (drop (length w) s)) s"
      using suffix_drop suffix_order.trans by blast
    with Some show ?thesis by (simp add: trimLeft.simps)
  qed
qed

lemma trimRight_prefix: "prefix (trimRight rs s) s"
proof (induction rs s rule: trimRight.induct)
  case (1 rs s)
  show ?case
  proof (cases "lastRune rs s")
    case None
    then show ?thesis by (simp add: trimRight.simps)
  next
    case (Some w)
    with 1 have "prefix (trimRight rs (take (length s - length w) s)) (take (length s - length w) s)"
      by simp
    then have "prefix (trimRight rs (take (length s - length w) s)) s"
      using take_is_prefix prefix_order.trans by blast
    with Some show ?thesis by (simp add: trimRight.simps)
  qed
qed

lemma trimRight_shorter:
  assumes "lastRune rs s = Some w"
  shows "length (trimRight rs s) < length s"
proof -
  from assms have w: "w \<noteq> []" "suffix w s" by (auto dest: lastRune_Some)
  then have "0 < length w" "length w \<le> length s" by (auto simp: suffix_length_le)
  then have "length s - length w < length s" by arith
  then have lt: "length (take (length s - length w) s) < length s" by simp
  have "length (trimRight rs (take (length s - length w) s)) \<le> length (take (length s - length w) s)"
    using trimRight_prefix prefix_length_le by blast
  with lt assms show ?thesis by (simp add: trimRight.simps)
qed

lemma TrimSuffix_prefix: "prefix (TrimSuffix s x) s"
  unfolding TrimSuffix_def by (simp add: take_is_prefix)

lemma firstRune_prefix:
  assumes "firstRune rs s = None" "prefix p s"
  shows "firstRune rs p = None"
  using assms unfolding firstRune_def find_None_iff
  by (meson prefix_order.trans)

lemma getLink_steps:
  obtains x where "CHR ''#'' \<notin> set x" "CHR ''?'' \<notin> set x" "getLink u = TrimSuffix (TrimSpace x) ''/''"
proof -
  define x1 where "x1 = (if stringsContains u ''#'' then splitHead u (CHR ''#'') else u)"
  define x2 where "x2 = (if stringsContains x1 ''?'' then splitHead x1 (CHR ''?'') else x1)"
  have h1: "CHR ''#'' \<notin> set x1" unfolding x1_def by (simp add: contains_char splitHead_no)
  have "set x2 \<subseteq> set x1" unfolding x2_def using splitHead_set by simp
  with h1 have h2: "CHR ''#'' \<notin> set x2" by blast
  have q2: "CHR ''?'' \<notin> set x2" unfolding x2_def by (simp add: contains_char splitHead_no)
  have "getLink u = TrimSuffix (TrimSpace x2) ''/''"
    unfolding getLink_def x1_def x2_def Let_def by simp
  with h2 q2 that show thesis by blast
qed

lemma getLink_clean:
  assumes "CHR ''#'' \<notin> set s" "CHR ''?'' \<notin> set s"
  shows "getLink s = TrimSuffix (TrimSpace s) ''/''"
  using assms unfolding getLink_def Let_def by (simp add: contains_char)

lemma TrimSpace_sub: "set (TrimSpace s) \<subseteq> set s"
  unfolding TrimSpace_def using trimRight_prefix trimLeft_suffix
  by (meson set_mono_prefix set_mono_suffix subset_trans)

lemma TrimSuffix_sub: "set (TrimSuffix s x) \<subseteq> set s"
  using TrimSuffix_prefix set_mono_prefix by blast

lemma getLink_no_hash: "CHR ''#'' \<notin> set (getLink u)"
  using getLink_steps [of u] TrimSpace_sub TrimSuffix_sub by (metis subsetD)

lemma getLink_no_query: "CHR ''?'' \<notin> set (getLink u)"
  using getLink_steps [of u] TrimSpace_sub TrimSuffix_sub by (metis subsetD)

lemma getLink_firstRune: "firstRune whiteSpace (getLink u) = None"
proof -
  obtain x where x: "getLink u = TrimSuffix (TrimSpace x) ''/''" using getLink_steps by blast
  have "prefix (TrimSpace x) (trimLeft whiteSpace x)"
    unfolding TrimSpace_def by (rule trimRight_prefix)
  then have "prefix (getLink u) (trimLeft whiteSpace x)"
    unfolding x using TrimSuffix_prefix prefix_order.trans by blast
  then show ?thesis using trimLeft_firstRune firstRune_prefix by blast
qed

lemma getLink_again:
  "getLink (getLink u) = TrimSuffix (trimRight whiteSpace (getLink u)) ''/''"
  by (simp add: getLink_clean getLink_no_hash getLink_no_query TrimSpace_def
      trimLeft_id getLink_firstRune)

lemma TrimSuffix_fix: "TrimSuffix s ''/'' = s \<longleftrightarrow> \<not> HasSuffix s ''/''"
proof
  assume a: "TrimSuffix s ''/'' = s"
  show "\<not> HasSuffix s ''/''"
  proof
    assume h: "HasSuffix s ''/''"
    then have "s \<noteq> []" unfolding HasSuffix_def by auto
    then have "length (TrimSuffix s ''/'') < length s" using h unfolding TrimSuffix_def by simp
    with a show False by simp
  qed
qed (simp add: TrimSuffix_def)


section \<open>Lemmas on the handlers\<close>

lemma find'_iff: "find' xs q \<longleftrightarrow> q \<in> set xs"
  by (induction xs) auto

lemma getDomainsLoop_snd:
  "snd (getDomainsLoop env links (ds, ps)) =
     ps @ filter (\<lambda>l. case urlParse env l of None \<Rightarrow> False | Some u \<Rightarrow> Path u \<noteq> []) links"
  by (induction links arbitrary: ds ps) (auto split: option.splits)

lemma getDomains_pathsites:
  "snd (getDomains env links) =
     filter (\<lambda>l. case urlParse env l of None \<Rightarrow> False | Some u \<Rightarrow> Path u \<noteq> []) links"
  unfolding getDomains_def by (simp add: getDomainsLoop_snd)

lemma findPathsite_find:
  "findPathsite ps d = (case find (\<lambda>s. stringsContains s d) ps of None \<Rightarrow> [] | Some s \<Rightarrow> s)"
  by (induction ps) auto

lemma onAnchor_decided:
  assumes "100 < Response_StatusCode pg" "Response_StatusCode pg < 400"
    and "\<not> findSuffix env (SUFFIXES pol) (getLink (Attr e ''href''))"
    and "urlParse env (AbsoluteURL env (Request_URL pg) (getLink (Attr e ''href''))) = Some u"
  shows "snd (onAnchor env pol ld pg e) =
     (let link = AbsoluteURL env (Request_URL pg) (getLink (Attr e ''href''));
          pathsite = findPathsite (pathsites pol) (Hostname u)
      in if pathsite \<noteq> [] \<and> \<not> HasPrefix link pathsite then [] else [link])"
  using assms by (simp add: onAnchor_def Let_def)

lemma onAnchor_printed:
  assumes "100 < Response_StatusCode pg" "Response_StatusCode pg < 400"
    and "\<not> findSuffix env (SUFFIXES pol) (getLink (Attr e ''href''))"
    and "urlParse env (AbsoluteURL env (Request_URL pg) (getLink (Attr e ''href''))) = Some u"
  shows "fst (onAnchor env pol ld pg e) =
     (let link = AbsoluteURL env (Request_URL pg) (getLink (Attr e ''href''))
      in if \<not> utilContains env (boringWords pol) link \<and> \<not> utilContains env (boringDomains pol) link
         then if \<not> find' (domains pol) (Hostname u)
              then [Println ''non-webring-link'' link pg ld]
              else if Hostname u \<noteq> Hostname (Request_URL pg)
                      \<and> Hostname u \<noteq> initialDomain pol
                      \<and> Hostname (Request_URL pg) \<noteq> initialDomain pol
              then [Println ''webring-link'' link pg ld]
              else []
         else [])"
  using assms by (simp add: onAnchor_def Let_def)


lemma onAnchor_status:
  "Response_StatusCode pg \<ge> 400 \<or> Response_StatusCode pg \<le> 100 \<Longrightarrow>
     onAnchor env pol ld pg e = ([], [])"
  by (simp add: onAnchor_def)

lemma OnHTML_run: "Response_StatusCode pg < 203 \<Longrightarrow> OnHTML pg sel f = map f (Select pg sel)"
  by (simp add: OnHTML_def)

lemma OnHTML_error: "Response_StatusCode pg \<ge> 203 \<Longrightarrow> OnHTML pg sel f = []"
  by (simp add: OnHTML_def)

lemma handleIndexing_run:
  assumes "Response_StatusCode pg < 203"
  shows "handleIndexing env qs hs ld pg =
     concat (map (onKeywords ld pg) (Select pg (metaSelector ''name'' ''keywords'')))
     @ concat (map (onDescription ld pg) (Select pg (metaSelector ''name'' ''description'')))
     @ concat (map (onOgDescription ld pg) (Select pg (metaSelector ''property'' ''og:description'')))
     @ concat (map (onLang ld pg) (Select pg ''html[lang]''))
     @ concat (map (onTitle ld pg) (Select pg ''title''))
     @ concat (map (onBody env qs hs ld pg) (Select pg ''body''))"
  by (simp only: handleIndexing_def OnHTML_run [OF assms])

lemma handleIndexing_error:
  "Response_StatusCode pg \<ge> 203 \<Longrightarrow> handleIndexing env qs hs ld pg = []"
  by (simp add: handleIndexing_def OnHTML_error)

lemma visitPage_error:
  "Response_StatusCode pg \<ge> 203 \<Longrightarrow> visitPage env pol pg st = st"
  by (simp add: visitPage_def handleIndexing_error OnHTML_error)

lemma visitPage_queue_status:
  assumes "Response_StatusCode pg \<ge> 400 \<or> Response_StatusCode pg \<le> 100"
  shows "queue (visitPage env pol pg st) = queue st"
proof -
  have "onAnchor env pol (linkDepths st) pg = (\<lambda>e. ([], []))"
    using assms by (intro ext) (rule onAnchor_status)
  then have "concat (map snd (OnHTML pg ''a[href]'' (onAnchor env pol (linkDepths st) pg))) = []"
    by (simp add: OnHTML_def)
  then show ?thesis by (simp add: visitPage_def Let_def)
qed

lemma handleIndexing_status:
  assumes "Response_StatusCode pg < 203" and "c < 203"
  shows "handleIndexing env qs hs ld (pg\<lparr>Response_StatusCode := c\<rparr>) = handleIndexing env qs hs ld pg"
proof -
  have p: "\<And>t x. Println t x (pg\<lparr>Response_StatusCode := c\<rparr>) ld = Println t x pg ld"
    by (simp add: Println_def)
  have 1: "onKeywords ld (pg\<lparr>Response_StatusCode := c\<rparr>) = onKeywords ld pg"
    by (rule ext) (simp add: onKeywords_def p)
  have 2: "onDescription ld (pg\<lparr>Response_StatusCode := c\<rparr>) = onDescription ld pg"
    by (rule ext) (simp add: onDescription_def Let_def p)
  have 3: "onOgDescription ld (pg\<lparr>Response_StatusCode := c\<rparr>) = onOgDescription ld pg"
    by (rule ext) (simp add: onOgDescription_def Let_def p)
  have 4: "onLang ld (pg\<lparr>Response_StatusCode := c\<rparr>) = onLang ld pg"
    by (rule ext) (simp add: onLang_def Let_def p)
  have 5: "onTitle ld (pg\<lparr>Response_StatusCode := c\<rparr>) = onTitle ld pg"
    by (rule ext) (simp add: onTitle_def p)
  have h: "\<And>hd e. collectHeadingText hd e ld (pg\<lparr>Response_StatusCode := c\<rparr>)
      = collectHeadingText hd e ld pg"
    by (simp add: collectHeadingText_def p cong: if_cong)
  have 6: "onBody env qs hs ld (pg\<lparr>Response_StatusCode := c\<rparr>) = onBody env qs hs ld pg"
    by (rule ext) (simp add: onBody_def Let_def p h split: option.splits)
  have c: "Response_StatusCode (pg\<lparr>Response_StatusCode := c\<rparr>) < 203" using assms(2) by simp
  show ?thesis
    by (simp add: handleIndexing_run [OF c] handleIndexing_run [OF assms(1)] 1 2 3 4 5 6)
qed

text \<open>The lines of the handlers of \<^verbatim>\<open>handleIndexing\<close>, when colly calls them.\<close>

lemma handleIndexing_keywords:
  assumes "Response_StatusCode pg < 203" "e \<in> set (Select pg (metaSelector ''name'' ''keywords''))"
  shows "Println ''keywords'' (cleanText (Attr e ''content'')) pg ld
     \<in> set (handleIndexing env qs hs ld pg)"
  using assms(2) by (auto simp: handleIndexing_run [OF assms(1)] onKeywords_def)

lemma handleIndexing_desc:
  assumes "Response_StatusCode pg < 203"
    "e \<in> set (Select pg (metaSelector ''name'' ''description''))"
    "0 < length (cleanText (Attr e ''content''))" "length (cleanText (Attr e ''content'')) < 1500"
  shows "Println ''desc'' (cleanText (Attr e ''content'')) pg ld
     \<in> set (handleIndexing env qs hs ld pg)"
proof -
  from assms(3,4) have "Println ''desc'' (cleanText (Attr e ''content'')) pg ld
      \<in> set (onDescription ld pg e)"
    by (simp add: onDescription_def Let_def)
  with assms(2) show ?thesis
    by (auto simp: handleIndexing_run [OF assms(1)])
qed

lemma handleIndexing_og_desc:
  assumes "Response_StatusCode pg < 203"
    "e \<in> set (Select pg (metaSelector ''property'' ''og:description''))"
    "0 < length (cleanText (Attr e ''content''))" "length (cleanText (Attr e ''content'')) < 1500"
  shows "Println ''og-desc'' (cleanText (Attr e ''content'')) pg ld
     \<in> set (handleIndexing env qs hs ld pg)"
proof -
  from assms(3,4) have "Println ''og-desc'' (cleanText (Attr e ''content'')) pg ld
      \<in> set (onOgDescription ld pg e)"
    by (simp add: onOgDescription_def Let_def)
  with assms(2) show ?thesis
    by (auto simp: handleIndexing_run [OF assms(1)])
qed

lemma handleIndexing_lang:
  assumes "Response_StatusCode pg < 203" "e \<in> set (Select pg ''html[lang]'')"
    "0 < length (cleanText (Attr e ''lang''))" "length (cleanText (Attr e ''lang'')) < 100"
  shows "Println ''lang'' (cleanText (Attr e ''lang'')) pg ld
     \<in> set (handleIndexing env qs hs ld pg)"
proof -
  from assms(3,4) have "Println ''lang'' (cleanText (Attr e ''lang'')) pg ld
      \<in> set (onLang ld pg e)"
    by (simp add: onLang_def Let_def)
  with assms(2) show ?thesis
    by (auto simp: handleIndexing_run [OF assms(1)])
qed

lemma handleIndexing_title:
  assumes "Response_StatusCode pg < 203" "e \<in> set (Select pg ''title'')"
  shows "Println ''title'' (cleanText (Text e)) pg ld \<in> set (handleIndexing env qs hs ld pg)"
  using assms(2) by (auto simp: handleIndexing_run [OF assms(1)] onTitle_def)

lemma handleIndexing_body:
  assumes "Response_StatusCode pg < 203" "e \<in> set (Select pg ''body'')"
    "l \<in> set (onBody env qs hs ld pg e)"
  shows "l \<in> set (handleIndexing env qs hs ld pg)"
  using assms(2,3) by (auto simp: handleIndexing_run [OF assms(1)])

lemma onBody_para:
  "QueryLoop env hs e qs = Some paragraph \<Longrightarrow>
     Println ''para'' paragraph pg ld \<in> set (onBody env qs hs ld pg e)"
  by (simp add: onBody_def)

lemma onBody_para_just_p:
  assumes "paragraph = cleanText (case Find e ''p'' of [] \<Rightarrow> [] | t # ts \<Rightarrow> t)"
    "0 < length paragraph" "length paragraph < 1500"
  shows "Println ''para-just-p'' paragraph pg ld \<in> set (onBody env qs hs ld pg e)"
  using assms by (simp add: onBody_def Let_def)

lemma onBody_heading:
  assumes "h = ''h1'' \<or> h = ''h2'' \<or> h = ''h3''" "t \<in> set (ChildTexts e h)" "length t < 500"
  shows "Println h (cleanText t) pg ld \<in> set (onBody env qs hs ld pg e)"
proof -
  from assms(2,3) have "Println h (cleanText t) pg ld \<in> set (collectHeadingText h e ld pg)"
    by (auto simp: collectHeadingText_def)
  with assms(1) show ?thesis by (auto simp: onBody_def)
qed

lemma Println_depth: "depth (Println t x pg ld) = lookupDepth ld (page (Println t x pg ld))"
  by (simp add: Println_def)

lemma onAnchor_depth:
  "l \<in> set (fst (onAnchor env pol ld pg e)) \<Longrightarrow> depth l = lookupDepth ld (page l)"
  by (auto simp: onAnchor_def Let_def Println_depth split: if_splits option.splits)

lemma collectHeadingText_depth:
  "l \<in> set (collectHeadingText h e ld pg) \<Longrightarrow> depth l = lookupDepth ld (page l)"
  by (auto simp: collectHeadingText_def Println_depth split: if_splits)

lemma onBody_depth:
  "l \<in> set (onBody env qs hs ld pg e) \<Longrightarrow> depth l = lookupDepth ld (page l)"
  by (auto simp: onBody_def Let_def Println_depth collectHeadingText_depth
      split: if_splits option.splits)

lemma handleIndexing_depth:
  "l \<in> set (handleIndexing env qs hs ld pg) \<Longrightarrow> depth l = lookupDepth ld (page l)"
  by (auto simp: handleIndexing_def OnHTML_def onKeywords_def onDescription_def
      onOgDescription_def onLang_def onTitle_def Let_def Println_depth onBody_depth
      split: if_splits)

lemma visitPage_linkDepths: "linkDepths (visitPage env pol pg st) = linkDepths st"
  by (simp add: visitPage_def Let_def)

lemma visitPage_printed:
  assumes "l \<in> set (printed (visitPage env pol pg st))"
  shows "l \<in> set (printed st) \<or> depth l = lookupDepth (linkDepths st) (page l)"
proof -
  from assms consider "l \<in> set (printed st)"
    | e where "l \<in> set (fst (onAnchor env pol (linkDepths st) pg e))"
    | "l \<in> set (handleIndexing env (previewQueries pol) (heuristics pol) (linkDepths st) pg)"
    by (auto simp: visitPage_def OnHTML_def Let_def split: if_splits)
  then show ?thesis
    by cases (auto simp: onAnchor_depth handleIndexing_depth)
qed

lemma crawlReach_invariant:
  assumes "crawlReach env pol s0 s"
  shows "linkDepths s = linkDepths s0
     \<and> (\<forall>l \<in> set (printed s). l \<in> set (printed s0) \<or> depth l = lookupDepth (linkDepths s0) (page l))"
  using assms
proof (induction rule: crawlReach.induct)
  case start
  show ?case by simp
next
  case (visit s pg)
  then show ?case
    using visitPage_printed [of _ env pol pg s] by (auto simp: visitPage_linkDepths)
qed

lemma seedLoop_result:
  "seedLoop links depths st = Some s0 \<Longrightarrow>
     linkDepths s0 = linkDepths st ++ map_of (rev (zip links depths))
     \<and> printed s0 = printed st \<and> queue s0 = queue st @ links \<and> length links \<le> length depths"
proof (induction links depths st rule: seedLoop.induct)
  case (1 ds st)
  then show ?case by simp
next
  case (2 link links st)
  then show ?case by simp
next
  case (3 link links d ds st)
  let ?st = "st\<lparr>queue := queue st @ [link], linkDepths := (linkDepths st)(link \<mapsto> d)\<rparr>"
  from 3 have ih: "linkDepths s0 = linkDepths ?st ++ map_of (rev (zip links ds))"
    "printed s0 = printed ?st" "queue s0 = queue ?st @ links" "length links \<le> length ds"
    by (simp_all add: fun_upd_def)
  have "linkDepths st ++ map_of (rev (zip (link # links) (d # ds)))
      = linkDepths st ++ (map_of [(link, d)] ++ map_of (rev (zip links ds)))"
    by (simp only: zip_Cons_Cons rev.simps map_of_append)
  also have "\<dots> = (linkDepths st ++ map_of [(link, d)]) ++ map_of (rev (zip links ds))"
    by (simp only: map_add_assoc)
  also have "linkDepths st ++ map_of [(link, d)] = (linkDepths st)(link \<mapsto> d)"
    by simp
  finally have "linkDepths s0 = linkDepths st ++ map_of (rev (zip (link # links) (d # ds)))"
    using ih(1) by simp
  with ih show ?case by simp
qed

lemma crawlStart_result:
  assumes "crawlStart links depths = Some s0"
  shows "linkDepths s0 = map_of (rev (zip links depths))" "dom (linkDepths s0) = set links"
    "printed s0 = []" "queue s0 = links"
proof -
  from assms have r: "linkDepths s0 = Map.empty ++ map_of (rev (zip links depths))"
    "printed s0 = []" "queue s0 = links" "length links \<le> length depths"
    unfolding crawlStart_def by (auto dest: seedLoop_result)
  then show "linkDepths s0 = map_of (rev (zip links depths))" by simp
  then have "dom (linkDepths s0) = fst ` set (zip links depths)"
    by (simp add: dom_map_of_conv_image_fst)
  also have "\<dots> = set (map fst (zip links depths))" by simp
  also have "\<dots> = set links" using r(4) by (simp add: map_fst_zip_take)
  finally show "dom (linkDepths s0) = set links" .
  show "printed s0 = []" "queue s0 = links" using r by simp_all
qed

section \<open>Lemmas on the discovery protocol\<close>







lemma precrawlIter_Fatal_Body:
  "clusterOf env (res st) = None \<Longrightarrow> precrawlIter env st = Fatal ReadAllError"
  by (simp add: precrawlIter_def clusterOf_def split: option.splits)




lemma precrawlIter_unfold:
  assumes "clusterOf env (res st) = Some c"
  shows "precrawlIter env st =
     (let s1 = st\<lparr>checked := setAdd \<lparr>Hypha.Url = Location c, Hypha.Depth = depthCounter st\<rparr> (checked st),
                   allHyphae := fold (\<lambda>v. setAdd \<lparr>Hypha.Url = v, Hypha.Depth = depthCounter st + 1\<rparr>)
                                 (Hyphae c) (allHyphae st),
                   allSites := fold (\<lambda>v. setAdd \<lparr>Site.Url = v, Site.Depth = depthCounter st\<rparr>)
                                 (Spores c) (allSites st)\<rparr>;
          diff = setDifference (allHyphae s1) (checked s1)
      in if diff = [] then Done s1
         else case httpGet env (Hypha.Url (setPop env diff)) of
                None \<Rightarrow> Fatal GetError
              | Some r \<Rightarrow> Again (s1\<lparr>depthCounter := Hypha.Depth (setPop env diff), res := r\<rparr>))"
proof -
  from assms obtain body where b: "Body (res st) = Some body" "c = fst (jsonUnmarshal env body)"
    by (auto simp: clusterOf_def)
  show ?thesis
    unfolding precrawlIter_def b
    by (simp add: Let_def setCardinality_def cong: option.case_cong)
qed





















lemma Precrawl_Inr:
  assumes "Precrawl env config = Some (Inr ps)"
  obtains r st where "httpGet env (General_URL config) = Some r"
    and "precrawlLoop env (precrawlStart r) = Some (Inr st)"
    and "StatusCode (res st) = 200"
    and "ps = printSites env (getBannedDomains env (Crawler_BannedDomains config)) (allSites st)"
proof (cases "SetupDefaultProxy env config")
  case (Some e)
  with assms show ?thesis by (simp add: Precrawl_def)
next
  case None
  show ?thesis
  proof (cases "httpGet env (General_URL config)")
    case n: None
    with None assms show ?thesis by (simp add: Precrawl_def)
  next
    case (Some r)
    show ?thesis
    proof (cases "precrawlLoop env (precrawlStart r)")
      case n: None
      with None Some assms show ?thesis by (simp add: Precrawl_def)
    next
      case s: (Some y)
      show ?thesis
      proof (cases y)
        case (Inl e)
        with None Some s assms show ?thesis by (simp add: Precrawl_def)
      next
        case (Inr st)
        with None Some s assms have "StatusCode (res st) = 200"
          "ps = printSites env (getBannedDomains env (Crawler_BannedDomains config)) (allSites st)"
          by (simp_all add: Precrawl_def split: if_splits)
        with Some s Inr that show ?thesis by blast
      qed
    qed
  qed
qed

lemma Precrawl_transport_errors:
  "SetupDefaultProxy env config = Some e \<Longrightarrow> Precrawl env config = Some (Inl e)"
  "SetupDefaultProxy env config = None \<Longrightarrow> httpGet env (General_URL config) = None \<Longrightarrow>
     Precrawl env config = Some (Inl GetError)"
  "Body (res st) = None \<Longrightarrow> precrawlIter env st = Fatal ReadAllError"
  by (simp_all add: Precrawl_def precrawlIter_def)

lemma Precrawl_final_status:
  assumes "Precrawl env config = Some (Inr ps)"
  shows "\<exists>r st. httpGet env (General_URL config) = Some r
     \<and> precrawlLoop env (precrawlStart r) = Some (Inr st) \<and> StatusCode (res st) = 200"
  using assms by (rule Precrawl_Inr) blast

text \<open>What the handler of \<^verbatim>\<open>a[href]\<close> tests before it prints a \<^verbatim>\<open>webring-link\<close> line.\<close>

lemma onAnchor_webring_link:
  assumes "100 < Response_StatusCode pg" "Response_StatusCode pg < 400"
    and "\<not> findSuffix env (SUFFIXES pol) (getLink (Attr e ''href''))"
    and "urlParse env (AbsoluteURL env (Request_URL pg) (getLink (Attr e ''href''))) = Some u"
    and "\<not> utilContains env (boringWords pol)
             (AbsoluteURL env (Request_URL pg) (getLink (Attr e ''href'')))"
    and "\<not> utilContains env (boringDomains pol)
             (AbsoluteURL env (Request_URL pg) (getLink (Attr e ''href'')))"
    and "find' (domains pol) (Hostname u)"
  shows "(\<exists>l \<in> set (fst (onAnchor env pol ld pg e)). tag l = ''webring-link'')
           \<longleftrightarrow> (Hostname u \<noteq> Hostname (Request_URL pg)
                \<and> Hostname u \<noteq> initialDomain pol
                \<and> Hostname (Request_URL pg) \<noteq> initialDomain pol)"
  using assms by (simp add: onAnchor_printed Let_def Println_def)

section \<open>Termination of the discovery\<close>




section \<open>Errors of the discovery\<close>

text \<open>
  Claim C2 says that a JSON decode error aborts the discovery. \<^verbatim>\<open>Precrawl\<close> stops at
  \<^verbatim>\<open>log.Fatal\<close> on an error of \<^verbatim>\<open>Get\<close> or of \<^verbatim>\<open>ReadAll\<close> and when the last response has
  not the status 200, but it drops the error \<^verbatim>\<open>json.Unmarshal\<close> returns. Here the seed
  document has the number 7 where the list of hyphae should be: \<^verbatim>\<open>json.Unmarshal\<close> returns
  an error and has filled the other fields, and the spore of the document is printed.
\<close>

theorem decode_error_not_fatal:
  "snd (jsonUnmarshal typeErrorEnv typeErrorDoc)
   \<and> Precrawl typeErrorEnv (seedConfig ''https://a'') = Some (Inr [(''https://b'', 0)])"
  by code_simp

section \<open>The discovery of two documents\<close>

text \<open>
  Claim C3: when the seed document is at \<^verbatim>\<open>https://a\<close> with the hypha \<^verbatim>\<open>https://a/2\<close> and
  the spore \<^verbatim>\<open>https://b\<close>, and the document fetched from \<^verbatim>\<open>https://a/2\<close> (with the status
  200) has no hypha and the spore \<^verbatim>\<open>https://c\<close>, and the domains of \<^verbatim>\<open>b\<close> and \<^verbatim>\<open>c\<close> are not
  banned, \<^verbatim>\<open>Precrawl\<close> prints the pairs \<^verbatim>\<open>(https://b, 0)\<close> and \<^verbatim>\<open>(https://c, 1)\<close> and no other
  (here in the order of their insertion; Go prints a set in an arbitrary order).
\<close>

theorem two_document_discovery:
  assumes "General_Proxy config = []"
    and "httpGet env (General_URL config) = Some r0" and "clusterOf env r0 = Some c0"
    and "Location c0 = ''https://a''" and "Hyphae c0 = [''https://a/2'']"
    and "Spores c0 = [''https://b'']"
    and "httpGet env ''https://a/2'' = Some r1" and "StatusCode r1 = 200"
    and "clusterOf env r1 = Some c1"
    and "Location c1 = ''https://a/2''" and "Hyphae c1 = []" and "Spores c1 = [''https://c'']"
    and "\<forall>xs. xs \<noteq> [] \<longrightarrow> setPop env xs \<in> set xs"
    and "urlParse env ''https://b'' = Some ub" and "urlParse env ''https://c'' = Some uc"
    and "\<not> find' (getBannedDomains env (Crawler_BannedDomains config)) (Hostname ub)"
    and "\<not> find' (getBannedDomains env (Crawler_BannedDomains config)) (Hostname uc)"
  shows "Precrawl env config = Some (Inr [(''https://b'', 0), (''https://c'', 1)])"
proof -
  let ?a = "\<lparr>Hypha.Url = ''https://a'', Hypha.Depth = 0\<rparr>"
  let ?a2 = "\<lparr>Hypha.Url = ''https://a/2'', Hypha.Depth = 1\<rparr>"
  let ?b = "\<lparr>Site.Url = ''https://b'', Site.Depth = 0\<rparr>"
  let ?c = "\<lparr>Site.Url = ''https://c'', Site.Depth = 1\<rparr>"
  let ?s1 = "\<lparr>res = r1, depthCounter = 1, checked = [?a], allHyphae = [?a2], allSites = [?b]\<rparr>"
  let ?s2 = "\<lparr>res = r1, depthCounter = 1, checked = [?a, ?a2], allHyphae = [?a2],
             allSites = [?b, ?c]\<rparr>"
  have "setPop env [?a2] \<in> set [?a2]" using assms(13) by blast
  then have pop: "setPop env [?a2] = ?a2" by simp
  have c0: "clusterOf env (res (precrawlStart r0)) = Some c0"
    using assms(3) by (simp add: precrawlStart_def)
  have i1: "precrawlIter env (precrawlStart r0) = Again ?s1"
    by (subst precrawlIter_unfold [OF c0])
      (simp add: Let_def assms(4-7) precrawlStart_def setAdd_def setDifference_def pop)
  have c1: "clusterOf env (res ?s1) = Some c1" using assms(9) by simp
  have i2: "precrawlIter env ?s1 = Done ?s2"
    by (subst precrawlIter_unfold [OF c1])
      (simp add: Let_def assms(10-12) setAdd_def setDifference_def)
  have "precrawlLoop env ?s1 = Some (Inr ?s2)"
    by (subst precrawlLoop.simps) (simp add: i2)
  then have l: "precrawlLoop env (precrawlStart r0) = Some (Inr ?s2)"
    by (subst precrawlLoop.simps) (simp add: i1)
  have gb: "getLink ''https://b'' = ''https://b''" by code_simp
  have gc: "getLink ''https://c'' = ''https://c''" by code_simp
  have "printSites env (getBannedDomains env (Crawler_BannedDomains config)) [?b, ?c]
      = [(''https://b'', 0), (''https://c'', 1)]"
    by (simp add: gb gc assms(14-17))
  with l assms(1,2,8) show ?thesis
    by (simp add: Precrawl_def SetupDefaultProxy_def)
qed

text \<open>The two documents, served from a table.\<close>

theorem two_document_discovery_witness:
  "Precrawl twoDocs (seedConfig ''https://a'') = Some (Inr [(''https://b'', 0), (''https://c'', 1)])"
proof -
  let ?c0 = "\<lparr>Location = ''https://a'', Hyphae = [''https://a/2''], Spores = [''https://b''],
              Depth = 0\<rparr>"
  let ?c1 = "\<lparr>Location = ''https://a/2'', Hyphae = [], Spores = [''https://c''], Depth = 0\<rparr>"
  let ?r0 = "\<lparr>StatusCode = 200, Body = Some ''doc a''\<rparr>"
  let ?r1 = "\<lparr>StatusCode = 200, Body = Some ''doc a/2''\<rparr>"
  let ?ub = "\<lparr>Path = [], Hostname = ''b'', String = ''https://b''\<rparr>"
  let ?uc = "\<lparr>Path = [], Hostname = ''c'', String = ''https://c''\<rparr>"
  have 1: "General_Proxy (seedConfig ''https://a'') = []" by code_simp
  have 2: "httpGet twoDocs (General_URL (seedConfig ''https://a'')) = Some ?r0" by code_simp
  have 3: "clusterOf twoDocs ?r0 = Some ?c0" by code_simp
  have 4: "Location ?c0 = ''https://a''" by simp
  have 5: "Hyphae ?c0 = [''https://a/2'']" by simp
  have 6: "Spores ?c0 = [''https://b'']" by simp
  have 7: "httpGet twoDocs ''https://a/2'' = Some ?r1" by code_simp
  have 8: "StatusCode ?r1 = 200" by simp
  have 9: "clusterOf twoDocs ?r1 = Some ?c1" by code_simp
  have 10: "Location ?c1 = ''https://a/2''" by simp
  have 11: "Hyphae ?c1 = []" by simp
  have 12: "Spores ?c1 = [''https://c'']" by simp
  have 13: "\<forall>xs. xs \<noteq> [] \<longrightarrow> setPop twoDocs xs \<in> set xs"
    by (simp add: twoDocs_def exampleEnv_def)
  have 14: "urlParse twoDocs ''https://b'' = Some ?ub" by code_simp
  have 15: "urlParse twoDocs ''https://c'' = Some ?uc" by code_simp
  have 16: "\<not> find' (getBannedDomains twoDocs (Crawler_BannedDomains (seedConfig ''https://a'')))
              (Hostname ?ub)" by code_simp
  have 17: "\<not> find' (getBannedDomains twoDocs (Crawler_BannedDomains (seedConfig ''https://a'')))
              (Hostname ?uc)" by code_simp
  show ?thesis
    by (rule two_document_discovery [OF 1 2 3 4 5 6 7 8 9 10 11 12 13 14 15 16 17])
qed

section \<open>A seed with the path \<^verbatim>\<open>/\<close>\<close>

text \<open>
  Claim C4 says that a seed is a pathsite exactly when its path is not empty and is not
  \<^verbatim>\<open>/\<close>. The test of \<^verbatim>\<open>getDomains\<close>, \<^verbatim>\<open>u.Path != "/" || u.Path != "index.html"\<close>, holds for
  every path, so every seed with a path that is not empty is a pathsite: here the seed
  \<^verbatim>\<open>https://example.com/\<close>, whose path is \<^verbatim>\<open>/\<close>.
\<close>

theorem root_path_is_pathsite:
  "map_option Path (urlParse rootEnv ''https://example.com/'') = Some ''/''
   \<and> snd (getDomains rootEnv [''https://example.com/'']) = [''https://example.com/'']"
  by code_simp

section \<open>Links below a pathsite\<close>

text \<open>
  Claim C5: when the handler of \<^verbatim>\<open>a[href]\<close> comes to its decision (the status is between
  100 and 400, the link has no banned suffix and parses), and a pathsite contains the
  domain of the link, the link is given to the queue exactly when it starts with the first
  such pathsite; when no pathsite contains the domain, the link is given to the queue.
\<close>

theorem path_restricted_enqueue:
  assumes "100 < Response_StatusCode pg" "Response_StatusCode pg < 400"
    and "\<not> findSuffix env (SUFFIXES pol) (getLink (Attr e ''href''))"
    and "urlParse env (AbsoluteURL env (Request_URL pg) (getLink (Attr e ''href''))) = Some u"
  shows "(find (\<lambda>s. stringsContains s (Hostname u)) (pathsites pol) = Some s \<longrightarrow>
            snd (onAnchor env pol ld pg e) =
              (if HasPrefix (AbsoluteURL env (Request_URL pg) (getLink (Attr e ''href''))) s
               then [AbsoluteURL env (Request_URL pg) (getLink (Attr e ''href''))] else []))
       \<and> (find (\<lambda>s. stringsContains s (Hostname u)) (pathsites pol) = None \<longrightarrow>
            snd (onAnchor env pol ld pg e) =
              [AbsoluteURL env (Request_URL pg) (getLink (Attr e ''href''))])"
  using assms
  by (auto simp: onAnchor_decided findPathsite_find Let_def HasPrefix_def)


text \<open>
  The instance of the claim: with the pathsite \<^verbatim>\<open>https://shared.example/~alice\<close>, the link
  \<^verbatim>\<open>https://shared.example/~bob/page\<close> is not enqueued and
  \<^verbatim>\<open>https://shared.example/~alice/page2\<close> is.
\<close>

theorem path_restricted_enqueue_witness:
  "snd (onAnchor sharedEnv alicePolicy Map.empty alicePage
          (anchor ''https://shared.example/~bob/page'')) = []
   \<and> snd (onAnchor sharedEnv alicePolicy Map.empty alicePage
          (anchor ''https://shared.example/~alice/page2'')) = [''https://shared.example/~alice/page2'']
   \<and> pathsites alicePolicy = [''https://shared.example/~alice'']"
proof -
  let ?u = "\<lparr>Path = ''/~bob/page'', Hostname = ''shared.example'',
              String = ''https://shared.example/~bob/page''\<rparr>"
  let ?v = "\<lparr>Path = ''/~alice/page2'', Hostname = ''shared.example'',
              String = ''https://shared.example/~alice/page2''\<rparr>"
  have s1: "100 < Response_StatusCode alicePage" by code_simp
  have s2: "Response_StatusCode alicePage < 400" by code_simp
  have b1: "\<not> findSuffix sharedEnv (SUFFIXES alicePolicy)
              (getLink (Attr (anchor ''https://shared.example/~bob/page'') ''href''))"
    by code_simp
  have b2: "urlParse sharedEnv (AbsoluteURL sharedEnv (Request_URL alicePage)
              (getLink (Attr (anchor ''https://shared.example/~bob/page'') ''href''))) = Some ?u"
    by code_simp
  have b3: "find (\<lambda>s. stringsContains s (Hostname ?u)) (pathsites alicePolicy)
              = Some ''https://shared.example/~alice''"
    by code_simp
  have b4: "AbsoluteURL sharedEnv (Request_URL alicePage)
              (getLink (Attr (anchor ''https://shared.example/~bob/page'') ''href''))
            = ''https://shared.example/~bob/page''"
    by code_simp
  have b5: "\<not> HasPrefix ''https://shared.example/~bob/page'' ''https://shared.example/~alice''"
    by code_simp
  have a1: "\<not> findSuffix sharedEnv (SUFFIXES alicePolicy)
              (getLink (Attr (anchor ''https://shared.example/~alice/page2'') ''href''))"
    by code_simp
  have a2: "urlParse sharedEnv (AbsoluteURL sharedEnv (Request_URL alicePage)
              (getLink (Attr (anchor ''https://shared.example/~alice/page2'') ''href''))) = Some ?v"
    by code_simp
  have a3: "find (\<lambda>s. stringsContains s (Hostname ?v)) (pathsites alicePolicy)
              = Some ''https://shared.example/~alice''"
    by code_simp
  have a4: "AbsoluteURL sharedEnv (Request_URL alicePage)
              (getLink (Attr (anchor ''https://shared.example/~alice/page2'') ''href''))
            = ''https://shared.example/~alice/page2''"
    by code_simp
  have a5: "HasPrefix ''https://shared.example/~alice/page2'' ''https://shared.example/~alice''"
    by code_simp
  have p: "pathsites alicePolicy = [''https://shared.example/~alice'']" by code_simp
  from path_restricted_enqueue [OF s1 s2 b1 b2, of "''https://shared.example/~alice''" Map.empty]
    b3 b4 b5
  have r1: "snd (onAnchor sharedEnv alicePolicy Map.empty alicePage
          (anchor ''https://shared.example/~bob/page'')) = []"
    by simp
  from path_restricted_enqueue [OF s1 s2 a1 a2, of "''https://shared.example/~alice''" Map.empty]
    a3 a4 a5
  have r2: "snd (onAnchor sharedEnv alicePolicy Map.empty alicePage
          (anchor ''https://shared.example/~alice/page2'')) = [''https://shared.example/~alice/page2'']"
    by simp
  from r1 r2 p show ?thesis by simp
qed


section \<open>Links to and from the root site\<close>

text \<open>
  Claim C6 says that no \<^verbatim>\<open>webring-link\<close> line is printed for a link to the root domain or
  from a page of the root domain. The handler compares the domain of the link and the
  domain of the page, which are host names, with \<^verbatim>\<open>initialDomain\<close>, which is
  \<^verbatim>\<open>config.General.URL\<close>: the URL \<^verbatim>\<open>https://webring.example\<close>, not the host name
  \<^verbatim>\<open>webring.example\<close>. The two differ, so the test never excludes the root site: here a
  link from a member to the root site, and a link from the root site to a member, are
  both printed as \<^verbatim>\<open>webring-link\<close>.
\<close>

theorem root_links_print_webring_link:
  "initialDomain rootRingPolicy = ''https://webring.example''
   \<and> map_option Hostname (urlParse rootRingEnv (General_URL exampleConfig))
       = Some ''webring.example''
   \<and> find' (domains rootRingPolicy) ''webring.example''
   \<and> onAnchor rootRingEnv rootRingPolicy Map.empty (aboutPage 200)
         (anchor ''https://webring.example/members'')
       = ([\<lparr>tag = ''webring-link'', payload = ''https://webring.example/members'',
            page = ''https://alice.example/about'', depth = 0\<rparr>],
          [''https://webring.example/members''])
   \<and> onAnchor rootRingEnv rootRingPolicy Map.empty membersPage
         (anchor ''https://alice.example/about'')
       = ([\<lparr>tag = ''webring-link'', payload = ''https://alice.example/about'',
            page = ''https://webring.example/members'', depth = 0\<rparr>],
          [''https://alice.example/about''])"
  by code_simp

section \<open>The link normalizer is not idempotent\<close>

text \<open>
  Claim C7, as it is written: \<open>getLink (getLink u) = getLink u\<close> for every string \<open>u\<close>.
  It fails: \<^verbatim>\<open>TrimSuffix\<close> cuts one slash, so \<^verbatim>\<open>"a//"\<close> becomes \<^verbatim>\<open>"a/"\<close>, and then \<^verbatim>\<open>"a"\<close>.
\<close>

theorem getLink_not_idempotent:
  "getLink ''a//'' = ''a/'' \<and> getLink ''a/'' = ''a'' \<and> getLink (getLink ''a//'') \<noteq> getLink ''a//''"
  by code_simp

text \<open>
  Claim C7, amended: normalizing a second time changes nothing exactly when the first
  result ends neither with a slash nor with a white space rune. (The first result never
  has a \<^verbatim>\<open>#\<close> or a \<^verbatim>\<open>?\<close> and never starts with white space; a slash or white space that
  stood before the slash that was cut is still there.)
\<close>

theorem getLink_idempotent_iff:
  "getLink (getLink u) = getLink u \<longleftrightarrow>
     \<not> HasSuffix (getLink u) ''/'' \<and> \<not> hasSpaceSuffix (getLink u)"
proof (cases "lastRune whiteSpace (getLink u)")
  case None
  then show ?thesis
    by (simp add: getLink_again trimRight_id TrimSuffix_fix hasSpaceSuffix_def)
next
  case (Some w)
  then have "length (trimRight whiteSpace (getLink u)) < length (getLink u)"
    by (rule trimRight_shorter)
  moreover have "length (TrimSuffix (trimRight whiteSpace (getLink u)) ''/'')
      \<le> length (trimRight whiteSpace (getLink u))"
    using TrimSuffix_prefix prefix_length_le by blast
  ultimately have "length (getLink (getLink u)) < length (getLink u)"
    by (simp add: getLink_again)
  then have "getLink (getLink u) \<noteq> getLink u" by auto
  with Some show ?thesis by (simp add: hasSpaceSuffix_def)
qed


text \<open>The instance of the spec: \<^verbatim>\<open>https://x.com/a/#frag\<close>.\<close>

theorem getLink_idempotent_iff_witness:
  "getLink (getLink ''https://x.com/a/#frag'') = getLink ''https://x.com/a/#frag''
   \<and> getLink ''https://x.com/a/#frag'' = ''https://x.com/a''
   \<and> \<not> HasSuffix ''https://x.com/a'' ''/'' \<and> \<not> hasSpaceSuffix ''https://x.com/a''"
proof -
  have a: "getLink ''https://x.com/a/#frag'' = ''https://x.com/a''" by code_simp
  have b: "\<not> HasSuffix ''https://x.com/a'' ''/''" by code_simp
  have c: "\<not> hasSpaceSuffix ''https://x.com/a''" by code_simp
  from a b c getLink_idempotent_iff [of "''https://x.com/a/#frag''"] show ?thesis by simp
qed


section \<open>The map of depths is written at the start only\<close>

text \<open>
  Claim C8: in every state of the crawl, the map \<^verbatim>\<open>linkDepths\<close> is the one the loop over
  the seeds wrote (its keys are the seed links, each with its depth; a seed listed twice
  keeps its last depth), and every line printed for a page whose URL is not a seed link
  has the depth 0.
\<close>

theorem linkDepths_written_once:
  assumes "crawlStart links depths = Some s0" and "crawlReach env pol s0 s"
  shows "linkDepths s = map_of (rev (zip links depths))
     \<and> dom (linkDepths s) = set links
     \<and> (\<forall>l \<in> set (printed s). page l \<notin> set links \<longrightarrow> depth l = 0)"
proof -
  from assms(2) have inv: "linkDepths s = linkDepths s0"
    "\<forall>l \<in> set (printed s). l \<in> set (printed s0) \<or> depth l = lookupDepth (linkDepths s0) (page l)"
    by (auto dest: crawlReach_invariant)
  note st = crawlStart_result [OF assms(1)]
  have "depth l = 0" if "l \<in> set (printed s)" "page l \<notin> set links" for l
  proof -
    from that(1) inv(2) st(3) have "depth l = lookupDepth (linkDepths s0) (page l)" by auto
    moreover from that(2) st(2) have "linkDepths s0 (page l) = None" by blast
    ultimately show ?thesis by (simp add: lookupDepth_def)
  qed
  with inv(1) st(1,2) show ?thesis by auto
qed

text \<open>
  The page \<^verbatim>\<open>https://alice.example/about\<close> is not a seed: its two lines have the depth 0,
  and the map still gives the depth 2 for the seed \<^verbatim>\<open>https://bob.example\<close>.
\<close>

theorem linkDepths_written_once_witness:
  "crawlStart ringLinks ringDepths = Some ringStart
   \<and> length (printed (visitPage ringEnv ringPolicy (aboutPage 200) ringStart)) = 2
   \<and> list_all (\<lambda>l. depth l = 0) (printed (visitPage ringEnv ringPolicy (aboutPage 200) ringStart))
   \<and> linkDepths (visitPage ringEnv ringPolicy (aboutPage 200) ringStart) ''https://bob.example''
       = Some 2"
proof -
  define s where "s = visitPage ringEnv ringPolicy (aboutPage 200) ringStart"
  have h1: "crawlStart ringLinks ringDepths = Some ringStart"
    by (simp add: crawlStart_def ringLinks_def ringDepths_def ringStart_def)
  have h2: "crawlReach ringEnv ringPolicy ringStart s"
    unfolding s_def by (rule crawlReach.visit) (rule crawlReach.start)
  have p: "map page (printed s)
      = [''https://alice.example/about'', ''https://alice.example/about'']"
    unfolding s_def by code_simp
  have "length (map page (printed s)) = 2"
    by (simp only: p) simp
  then have len: "length (printed s) = 2" by simp
  have notseed: "''https://alice.example/about'' \<notin> set ringLinks"
    by (simp add: ringLinks_def)
  have "set (map page (printed s)) = {''https://alice.example/about''}"
    by (simp only: p) simp
  then have "page ` set (printed s) = {''https://alice.example/about''}" by simp
  then have pages: "\<forall>l \<in> set (printed s). page l = ''https://alice.example/about''"
    by blast
  from linkDepths_written_once [OF h1 h2]
  have m: "linkDepths s = map_of (rev (zip ringLinks ringDepths))"
    and d: "\<forall>l \<in> set (printed s). page l \<notin> set ringLinks \<longrightarrow> depth l = 0"
    by blast+
  from d pages notseed have "list_all (\<lambda>l. depth l = 0) (printed s)"
    by (simp add: list_all_iff)
  moreover from m have "linkDepths s ''https://bob.example'' = Some 2"
    by (simp add: ringLinks_def ringDepths_def)
  ultimately show ?thesis using h1 len unfolding s_def by simp
qed

section \<open>Only the first matching pathsite counts\<close>

text \<open>
  Claim C9: the pathsite consulted is the first one, in the order of the seed list, that
  contains the domain of the link; whatever pathsites come later, a link that does not
  start with that first pathsite is not enqueued. The pathsites are the seed links with a
  path, in the order of the seed list.
\<close>

theorem first_pathsite_only:
  assumes "100 < Response_StatusCode pg" "Response_StatusCode pg < 400"
    and "\<not> findSuffix env (SUFFIXES pol) (getLink (Attr e ''href''))"
    and "urlParse env (AbsoluteURL env (Request_URL pg) (getLink (Attr e ''href''))) = Some u"
    and "pathsites pol = before @ s # later"
    and "\<forall>t \<in> set before. \<not> stringsContains t (Hostname u)"
    and "stringsContains s (Hostname u)"
  shows "snd (onAnchor env pol ld pg e) =
           (if HasPrefix (AbsoluteURL env (Request_URL pg) (getLink (Attr e ''href''))) s
            then [AbsoluteURL env (Request_URL pg) (getLink (Attr e ''href''))] else [])
     \<and> pathsites (crawlPolicy env config links) =
           filter (\<lambda>l. case urlParse env l of None \<Rightarrow> False | Some u \<Rightarrow> Path u \<noteq> []) links"
proof -
  have "findPathsite (before @ s # later) (Hostname u) = s"
    using assms(6,7) by (induction before) auto
  with assms have "snd (onAnchor env pol ld pg e) =
           (if HasPrefix (AbsoluteURL env (Request_URL pg) (getLink (Attr e ''href''))) s
            then [AbsoluteURL env (Request_URL pg) (getLink (Attr e ''href''))] else [])"
    by (auto simp: onAnchor_decided Let_def HasPrefix_def)
  then show ?thesis
    by (simp add: crawlPolicy_def getDomains_pathsites)
qed

text \<open>
  With the pathsites \<^verbatim>\<open>~alice\<close> and \<^verbatim>\<open>~bob\<close> of one domain, in this order, a link below
  \<^verbatim>\<open>~bob\<close> is not enqueued.
\<close>

theorem first_pathsite_only_witness:
  "pathsites aliceBobPolicy = [''https://shared.example/~alice'', ''https://shared.example/~bob'']
   \<and> HasPrefix ''https://shared.example/~bob/page'' ''https://shared.example/~bob''
   \<and> snd (onAnchor sharedEnv aliceBobPolicy Map.empty alicePage
          (anchor ''https://shared.example/~bob/page'')) = []"
proof -
  let ?u = "\<lparr>Path = ''/~bob/page'', Hostname = ''shared.example'',
              String = ''https://shared.example/~bob/page''\<rparr>"
  have s1: "100 < Response_StatusCode alicePage" by code_simp
  have s2: "Response_StatusCode alicePage < 400" by code_simp
  have b1: "\<not> findSuffix sharedEnv (SUFFIXES aliceBobPolicy)
              (getLink (Attr (anchor ''https://shared.example/~bob/page'') ''href''))"
    by code_simp
  have b2: "urlParse sharedEnv (AbsoluteURL sharedEnv (Request_URL alicePage)
              (getLink (Attr (anchor ''https://shared.example/~bob/page'') ''href''))) = Some ?u"
    by code_simp
  have p: "pathsites aliceBobPolicy
             = [''https://shared.example/~alice'', ''https://shared.example/~bob'']"
    by code_simp
  then have b3: "pathsites aliceBobPolicy
             = [] @ ''https://shared.example/~alice'' # [''https://shared.example/~bob'']"
    by simp
  have b4: "\<forall>t \<in> set []. \<not> stringsContains t (Hostname ?u)" by simp
  have b5: "stringsContains ''https://shared.example/~alice'' (Hostname ?u)" by code_simp
  have b6: "AbsoluteURL sharedEnv (Request_URL alicePage)
              (getLink (Attr (anchor ''https://shared.example/~bob/page'') ''href''))
            = ''https://shared.example/~bob/page''"
    by code_simp
  have b7: "\<not> HasPrefix ''https://shared.example/~bob/page'' ''https://shared.example/~alice''"
    by code_simp
  have b8: "HasPrefix ''https://shared.example/~bob/page'' ''https://shared.example/~bob''"
    by code_simp
  from first_pathsite_only [OF s1 s2 b1 b2 b3 b4 b5, of Map.empty] b6 b7
  have "snd (onAnchor sharedEnv aliceBobPolicy Map.empty alicePage
          (anchor ''https://shared.example/~bob/page'')) = []"
    by simp
  with p b8 show ?thesis by simp
qed

section \<open>The status code and the handlers\<close>

text \<open>
  Claim C10, as it is written: the handlers of \<^verbatim>\<open>handleIndexing\<close> print their lines whatever
  the status code of the response is. They do not: colly calls no handler of \<^verbatim>\<open>OnHTML\<close>
  for a response with a status of 203 or more, so the title of a page is printed with the
  status 200 and not with the status 404.
\<close>

theorem extraction_depends_on_status:
  "handleIndexing ringEnv (previewQueries ringPolicy) (heuristics ringPolicy) Map.empty
       (aboutPage 200)
     = [\<lparr>tag = ''title'', payload = ''About Alice'', page = ''https://alice.example/about'',
         depth = 0\<rparr>]
   \<and> handleIndexing ringEnv (previewQueries ringPolicy) (heuristics ringPolicy) Map.empty
       (aboutPage 404) = []"
  by code_simp

text \<open>
  Claim C10, amended.
  \<^item> The handler of \<^verbatim>\<open>a[href]\<close> prints nothing and enqueues nothing when the status code
    is at least 400 or at most 100, and a page with such a status adds nothing to the
    queue.
  \<^item> With a status of 203 or more no handler runs: \<^verbatim>\<open>handleIndexing\<close> prints nothing and
    the page leaves the state of the crawl as it was.
  \<^item> With a status below 203 the handlers of \<^verbatim>\<open>handleIndexing\<close> have no test on the
    status: they print a \<^verbatim>\<open>keywords\<close> and a \<^verbatim>\<open>title\<close> line for every element, a \<^verbatim>\<open>desc\<close>,
    \<^verbatim>\<open>og-desc\<close> and \<^verbatim>\<open>lang\<close> line for every element whose cleaned text is within its
    bounds, and for every body the \<^verbatim>\<open>para\<close> line of the query loop, the \<^verbatim>\<open>para-just-p\<close>
    line of the first paragraph within its bounds and a line for every heading of fewer
    than 500 bytes; and what they print is the same for any two such statuses.
\<close>

theorem status_gate:
  "(Response_StatusCode pg \<ge> 400 \<or> Response_StatusCode pg \<le> 100 \<longrightarrow>
      onAnchor env pol ld pg a = ([], []) \<and> queue (visitPage env pol pg st) = queue st)
   \<and> (Response_StatusCode pg \<ge> 203 \<longrightarrow>
      handleIndexing env qs hs ld pg = [] \<and> visitPage env pol pg st = st)
   \<and> (Response_StatusCode pg < 203 \<longrightarrow>
      (\<forall>e \<in> set (Select pg (metaSelector ''name'' ''keywords'')).
          Println ''keywords'' (cleanText (Attr e ''content'')) pg ld
            \<in> set (handleIndexing env qs hs ld pg))
      \<and> (\<forall>e \<in> set (Select pg (metaSelector ''name'' ''description'')).
          0 < length (cleanText (Attr e ''content''))
          \<and> length (cleanText (Attr e ''content'')) < 1500 \<longrightarrow>
          Println ''desc'' (cleanText (Attr e ''content'')) pg ld
            \<in> set (handleIndexing env qs hs ld pg))
      \<and> (\<forall>e \<in> set (Select pg (metaSelector ''property'' ''og:description'')).
          0 < length (cleanText (Attr e ''content''))
          \<and> length (cleanText (Attr e ''content'')) < 1500 \<longrightarrow>
          Println ''og-desc'' (cleanText (Attr e ''content'')) pg ld
            \<in> set (handleIndexing env qs hs ld pg))
      \<and> (\<forall>e \<in> set (Select pg ''html[lang]'').
          0 < length (cleanText (Attr e ''lang''))
          \<and> length (cleanText (Attr e ''lang'')) < 100 \<longrightarrow>
          Println ''lang'' (cleanText (Attr e ''lang'')) pg ld
            \<in> set (handleIndexing env qs hs ld pg))
      \<and> (\<forall>e \<in> set (Select pg ''title'').
          Println ''title'' (cleanText (Text e)) pg ld \<in> set (handleIndexing env qs hs ld pg))
      \<and> (\<forall>e \<in> set (Select pg ''body'').
          (\<forall>paragraph. QueryLoop env hs e qs = Some paragraph \<longrightarrow>
              Println ''para'' paragraph pg ld \<in> set (handleIndexing env qs hs ld pg))
          \<and> (0 < length (cleanText (case Find e ''p'' of [] \<Rightarrow> [] | t # ts \<Rightarrow> t))
             \<and> length (cleanText (case Find e ''p'' of [] \<Rightarrow> [] | t # ts \<Rightarrow> t)) < 1500 \<longrightarrow>
              Println ''para-just-p'' (cleanText (case Find e ''p'' of [] \<Rightarrow> [] | t # ts \<Rightarrow> t))
                pg ld \<in> set (handleIndexing env qs hs ld pg))
          \<and> (\<forall>h \<in> {''h1'', ''h2'', ''h3''}. \<forall>t \<in> set (ChildTexts e h). length t < 500 \<longrightarrow>
              Println h (cleanText t) pg ld \<in> set (handleIndexing env qs hs ld pg)))
      \<and> (c < 203 \<longrightarrow>
          handleIndexing env qs hs ld (pg\<lparr>Response_StatusCode := c\<rparr>)
            = handleIndexing env qs hs ld pg))"
proof (intro conjI impI ballI allI)
  assume "Response_StatusCode pg \<ge> 400 \<or> Response_StatusCode pg \<le> 100"
  then show "onAnchor env pol ld pg a = ([], [])" by (rule onAnchor_status)
next
  assume "Response_StatusCode pg \<ge> 400 \<or> Response_StatusCode pg \<le> 100"
  then show "queue (visitPage env pol pg st) = queue st" by (rule visitPage_queue_status)
next
  assume "Response_StatusCode pg \<ge> 203"
  then show "handleIndexing env qs hs ld pg = []" by (rule handleIndexing_error)
next
  assume "Response_StatusCode pg \<ge> 203"
  then show "visitPage env pol pg st = st" by (rule visitPage_error)
next
  fix e
  assume "Response_StatusCode pg < 203" "e \<in> set (Select pg (metaSelector ''name'' ''keywords''))"
  then show "Println ''keywords'' (cleanText (Attr e ''content'')) pg ld
      \<in> set (handleIndexing env qs hs ld pg)"
    by (rule handleIndexing_keywords)
next
  fix e
  assume "Response_StatusCode pg < 203"
    "e \<in> set (Select pg (metaSelector ''name'' ''description''))"
    "0 < length (cleanText (Attr e ''content''))
     \<and> length (cleanText (Attr e ''content'')) < 1500"
  then show "Println ''desc'' (cleanText (Attr e ''content'')) pg ld
      \<in> set (handleIndexing env qs hs ld pg)"
    by (simp add: handleIndexing_desc)
next
  fix e
  assume "Response_StatusCode pg < 203"
    "e \<in> set (Select pg (metaSelector ''property'' ''og:description''))"
    "0 < length (cleanText (Attr e ''content''))
     \<and> length (cleanText (Attr e ''content'')) < 1500"
  then show "Println ''og-desc'' (cleanText (Attr e ''content'')) pg ld
      \<in> set (handleIndexing env qs hs ld pg)"
    by (simp add: handleIndexing_og_desc)
next
  fix e
  assume "Response_StatusCode pg < 203" "e \<in> set (Select pg ''html[lang]'')"
    "0 < length (cleanText (Attr e ''lang'')) \<and> length (cleanText (Attr e ''lang'')) < 100"
  then show "Println ''lang'' (cleanText (Attr e ''lang'')) pg ld
      \<in> set (handleIndexing env qs hs ld pg)"
    by (simp add: handleIndexing_lang)
next
  fix e
  assume "Response_StatusCode pg < 203" "e \<in> set (Select pg ''title'')"
  then show "Println ''title'' (cleanText (Text e)) pg ld \<in> set (handleIndexing env qs hs ld pg)"
    by (rule handleIndexing_title)
next
  fix e para
  assume s: "Response_StatusCode pg < 203" and e: "e \<in> set (Select pg ''body'')"
    and q: "QueryLoop env hs e qs = Some para"
  from q have "Println ''para'' para pg ld \<in> set (onBody env qs hs ld pg e)"
    by (rule onBody_para)
  with s e show "Println ''para'' para pg ld \<in> set (handleIndexing env qs hs ld pg)"
    by (rule handleIndexing_body)
next
  fix e :: HTMLElement
  let ?p = "cleanText (case Find e ''p'' of [] \<Rightarrow> [] | t # ts \<Rightarrow> t)"
  assume s: "Response_StatusCode pg < 203" and e: "e \<in> set (Select pg ''body'')"
    and b: "0 < length ?p \<and> length ?p < 1500"
  then have "Println ''para-just-p'' ?p pg ld \<in> set (onBody env qs hs ld pg e)"
    by (simp add: onBody_para_just_p)
  with s e show "Println ''para-just-p'' ?p pg ld \<in> set (handleIndexing env qs hs ld pg)"
    by (rule handleIndexing_body)
next
  fix e h t
  assume s: "Response_StatusCode pg < 203" and e: "e \<in> set (Select pg ''body'')"
    and h: "h \<in> {''h1'', ''h2'', ''h3''}" and t: "t \<in> set (ChildTexts e h)" "length t < 500"
  from h have "h = ''h1'' \<or> h = ''h2'' \<or> h = ''h3''" by blast
  then have "Println h (cleanText t) pg ld \<in> set (onBody env qs hs ld pg e)"
    using t by (rule onBody_heading)
  with s e show "Println h (cleanText t) pg ld \<in> set (handleIndexing env qs hs ld pg)"
    by (rule handleIndexing_body)
next
  assume "Response_StatusCode pg < 203" "c < 203"
  then show "handleIndexing env qs hs ld (pg\<lparr>Response_StatusCode := c\<rparr>)
      = handleIndexing env qs hs ld pg"
    by (rule handleIndexing_status)
qed

text \<open>
  The page \<^verbatim>\<open>https://alice.example/about\<close>: with the status 200 its title is printed; with
  the status 404 its link is dropped by the handler and the page changes nothing.
\<close>

theorem status_gate_witness:
  "\<lparr>tag = ''title'', payload = ''About Alice'', page = ''https://alice.example/about'', depth = 0\<rparr>
     \<in> set (handleIndexing ringEnv (previewQueries ringPolicy) (heuristics ringPolicy) Map.empty
          (aboutPage 200))
   \<and> onAnchor ringEnv ringPolicy Map.empty (aboutPage 404) (anchor ''https://bob.example/post'')
     = ([], [])
   \<and> visitPage ringEnv ringPolicy (aboutPage 404) ringStart = ringStart"
proof -
  let ?e = "titleElement ''  About   Alice ''"
  have s: "Response_StatusCode (aboutPage 200) < 203" by code_simp
  have e: "?e \<in> set (Select (aboutPage 200) ''title'')"
    by (simp add: aboutPage_def)
  have l: "Println ''title'' (cleanText (Text ?e)) (aboutPage 200) Map.empty
      = \<lparr>tag = ''title'', payload = ''About Alice'', page = ''https://alice.example/about'',
         depth = 0\<rparr>"
    by code_simp
  have f: "Response_StatusCode (aboutPage 404) \<ge> 400 \<or> Response_StatusCode (aboutPage 404) \<le> 100"
    by code_simp
  have g: "Response_StatusCode (aboutPage 404) \<ge> 203" by code_simp
  from status_gate [of "aboutPage 200" ringEnv ringPolicy Map.empty _ _
      "previewQueries ringPolicy" "heuristics ringPolicy"] s e
  have "Println ''title'' (cleanText (Text ?e)) (aboutPage 200) Map.empty
      \<in> set (handleIndexing ringEnv (previewQueries ringPolicy) (heuristics ringPolicy) Map.empty
          (aboutPage 200))"
    by blast
  with l have r1: "\<lparr>tag = ''title'', payload = ''About Alice'',
      page = ''https://alice.example/about'', depth = 0\<rparr>
     \<in> set (handleIndexing ringEnv (previewQueries ringPolicy) (heuristics ringPolicy) Map.empty
          (aboutPage 200))"
    by simp
  from status_gate [of "aboutPage 404" ringEnv ringPolicy Map.empty
      "anchor ''https://bob.example/post''" ringStart] f g
  have r2: "onAnchor ringEnv ringPolicy Map.empty (aboutPage 404)
      (anchor ''https://bob.example/post'') = ([], [])"
    and r3: "visitPage ringEnv ringPolicy (aboutPage 404) ringStart = ringStart"
    by blast+
  from r1 r2 r3 show ?thesis by simp
qed

end
